theory Spec2Isabelle
  imports Complex_Main "HOL-Library.Word" "HOL-Library.Stream"
begin

unbundle bit_operations_syntax

section \<open>Data model\<close>

type_synonym byte = "8 word"

text \<open>
  A status is the Python dict \<open>{"status": text, "ok": ok}\<close>; dict equality on two such
  dicts is equality of both fields, which is equality of records.
\<close>

record status_msg =
  status :: string
  ok :: bool

definition status_message :: "string \<Rightarrow> bool \<Rightarrow> status_msg" where
  "status_message t k = \<lparr>status = t, ok = k\<rparr>"

definition status_offline :: status_msg where
  "status_offline = status_message ''Offline'' False"

definition status_cover_open :: status_msg where
  "status_cover_open = status_message ''Cover is open'' False"

definition status_paper_being_fed :: status_msg where
  "status_paper_being_fed =
     status_message ''Paper is being fed by the paper feed button'' False"

definition status_oop :: status_msg where
  "status_oop = status_message ''Out of paper'' False"

definition status_error :: status_msg where
  "status_error = status_message ''Error light is on'' False"

definition status_no_response :: status_msg where
  "status_no_response = status_message ''No response from printer'' False"

definition status_not_connected :: status_msg where
  "status_not_connected = status_message ''Printer not connected'' False"

definition status_ready :: status_msg where
  "status_ready = status_message ''Ready'' True"

text \<open>The body of a message on the printed topic, as built by \<open>send_print_status\<close>.\<close>

record printed_msg =
  jobid :: string
  message :: string
  finished :: bool
  success :: bool

datatype payload = StatusPayload status_msg | PrintedPayload printed_msg

text \<open>
  Everything the program does to the outside world is recorded, in order, as an event:
  the watchdog notification, each system call on the device node, each forced sleep
  (in milliseconds), each publish (topic, body before \<open>json.dumps\<close>, retain flag), each
  reconnect attempt, each subscription and each call of the client's bounded event loop.
\<close>

datatype event =
    Watchdog
  | DevOpen
  | DevRead "byte list"
  | DevWrite "byte list"
  | DevClose
  | Sleep nat
  | Publish string payload bool
  | Reconnect
  | Subscribe string
  | MqttLoop real

text \<open>
  Python exceptions. \<open>IOError\<close> carries the \<open>repr\<close> of the exception object, which is
  what the format \<open>{e=}\<close> prints after \<open>e=\<close>.
\<close>

datatype exn =
    IOError string
  | UnboundLocalError string
  | TypeError string
  | KeyError string
  | UnicodeDecodeError string
  | SystemExit int
  | OtherError string

fun repr_exn :: "exn \<Rightarrow> string" where
  "repr_exn (IOError s) = s"
| "repr_exn (UnboundLocalError s) = s"
| "repr_exn (TypeError s) = s"
| "repr_exn (KeyError s) = s"
| "repr_exn (UnicodeDecodeError s) = s"
| "repr_exn (SystemExit n) = ''SystemExit''"
| "repr_exn (OtherError s) = s"

text \<open>
  The environment. Each \<open>with open(self.printer, ...) as f\<close> block is one open/close
  cycle of the device node; what the device does during the next cycle is the head of
  the stream \<open>dev\<close>: the open raises, the read or write inside raises, the close raises
  (after a read that delivered bytes), or everything succeeds. The bytes are what the
  device has buffered for a read; a write ignores them.
\<close>

datatype cycle =
    OpenFails string
  | OpFails string
  | CloseFails "byte list" string
  | Clean "byte list"

datatype reconnect_reply = Accepted | Refused | ReconnectRaises exn

datatype loop_rc = MQTT_ERR_SUCCESS | MQTT_ERR_CONN_LOST | MQTT_ERR_OTHER int

datatype callback = OnConnect int | OnPrintMessage "byte list"

record loop_reply =
  delivered :: "callback list"
  rc :: loop_rc

text \<open>
  The \<open>ReceiptPrinter\<close> object: its attributes, the environment it talks to (device,
  broker, clock, inbound traffic) and the trace of what it has done so far.
\<close>

record rp =
  status_topic :: string
  print_topic :: string
  printed_topic :: string
  status_check_interval :: real
  connected :: bool
  current_status :: status_msg
  print_queue :: "(string \<times> byte list) list"
  dev :: "cycle stream"
  broker :: "reconnect_reply stream"
  clock :: "real stream"
  inbox :: "loop_reply stream"
  trace :: "event list"

definition emit :: "event list \<Rightarrow> 'a rp_scheme \<Rightarrow> 'a rp_scheme" where
  "emit es self = self\<lparr>trace := trace self @ es\<rparr>"

section \<open>Control flow of a method body\<close>

text \<open>
  A statement either raises, returns a status from the enclosing method, or completes
  with a value.
\<close>

datatype 'a res = Raise exn | Return status_msg | Val 'a

definition seq ::
  "('s \<Rightarrow> 'a res \<times> 's) \<Rightarrow> ('a \<Rightarrow> 's \<Rightarrow> 'b res \<times> 's) \<Rightarrow> 's \<Rightarrow> 'b res \<times> 's" where
  "seq m k s =
     (case m s of
        (Raise e, s') \<Rightarrow> (Raise e, s')
      | (Return r, s') \<Rightarrow> (Return r, s')
      | (Val a, s') \<Rightarrow> k a s')"

section \<open>Device channel\<close>

text \<open>
  \<open>with open(self.printer, mode, opener=self._nocreat_opener) as f: body\<close>. The handle
  \<open>f\<close> is the cycle the device is in. Leaving the block closes the handle whichever way
  the body ended; an error raised by the close replaces the body's outcome.
\<close>

definition with_open ::
  "(cycle \<Rightarrow> 'a rp_scheme \<Rightarrow> 'b res \<times> 'a rp_scheme) \<Rightarrow> 'a rp_scheme \<Rightarrow> 'b res \<times> 'a rp_scheme"
  where
  "with_open body self =
     (let f = shd (dev self); s0 = self\<lparr>dev := stl (dev self)\<rparr> in
      case f of
        OpenFails e \<Rightarrow> (Raise (IOError e), s0)
      | _ \<Rightarrow>
          (case body f (emit [DevOpen] s0) of (r, s1) \<Rightarrow>
             (case f of
                CloseFails _ e \<Rightarrow> (Raise (IOError e), emit [DevClose] s1)
              | _ \<Rightarrow> (r, emit [DevClose] s1))))"

definition f_read :: "nat \<Rightarrow> cycle \<Rightarrow> 'a rp_scheme \<Rightarrow> byte list res \<times> 'a rp_scheme" where
  "f_read n f self =
     (case f of
        OpenFails e \<Rightarrow> (Raise (IOError e), self)
      | OpFails e \<Rightarrow> (Raise (IOError e), self)
      | CloseFails bs _ \<Rightarrow> (Val (take n bs), emit [DevRead (take n bs)] self)
      | Clean bs \<Rightarrow> (Val (take n bs), emit [DevRead (take n bs)] self))"

definition f_write :: "byte list \<Rightarrow> cycle \<Rightarrow> 'a rp_scheme \<Rightarrow> unit res \<times> 'a rp_scheme" where
  "f_write bs f self =
     (case f of
        OpenFails e \<Rightarrow> (Raise (IOError e), self)
      | OpFails e \<Rightarrow> (Raise (IOError e), self)
      | CloseFails _ _ \<Rightarrow> (Val (), emit [DevWrite bs] self)
      | Clean _ \<Rightarrow> (Val (), emit [DevWrite bs] self))"

definition sleep :: "nat \<Rightarrow> 'a rp_scheme \<Rightarrow> unit res \<times> 'a rp_scheme" where
  "sleep ms self = (Val (), emit [Sleep ms] self)"

section \<open>Status protocol\<close>

fun find_dle_eot_response :: "byte list \<Rightarrow> byte option" where
  "find_dle_eot_response [] = None"
| "find_dle_eot_response (b # r) =
     (if b AND 0x93 = 0x12 then Some b else find_dle_eot_response r)"

text \<open>
  The locals \<open>n1\<close> and \<open>n2\<close> of \<open>fetch_status\<close>. A local is unbound (\<open>None\<close>) until an
  assignment runs; once bound it holds the \<open>Optional[int]\<close> that the scan returned.
\<close>

record fetch_frame = rp +
  n1 :: "byte option option"
  n2 :: "byte option option"

text \<open>Decimal \<open>repr\<close> of a non-negative Python int.\<close>

fun repr_nat :: "nat \<Rightarrow> string" where
  "repr_nat n =
     (if n < 10 then [''0123456789'' ! n]
      else repr_nat (n div 10) @ [''0123456789'' ! (n mod 10)])"

declare repr_nat.simps [simp del]

definition repr_opt :: "byte option \<Rightarrow> string" where
  "repr_opt x = (case x of None \<Rightarrow> ''None'' | Some b \<Rightarrow> repr_nat (unat b))"

text \<open>Lines 92 to 98: bind \<open>n1\<close>, then decide whether phase 2 is needed.\<close>

definition phase1 :: "byte list \<Rightarrow> fetch_frame \<Rightarrow> unit res \<times> fetch_frame" where
  "phase1 r fr =
     (let x = find_dle_eot_response r; fr' = fr\<lparr>n1 := Some x\<rparr> in
      case x of
        None \<Rightarrow> (Return status_no_response, fr')
      | Some b \<Rightarrow> if b AND 0x28 = 0 then (Return status_ready, fr') else (Val (), fr'))"

text \<open>Lines 113 to 125: bind \<open>n2\<close>, then test its bits in the order of the source.\<close>

definition phase2 :: "byte list \<Rightarrow> fetch_frame \<Rightarrow> unit res \<times> fetch_frame" where
  "phase2 r fr =
     (let x = find_dle_eot_response r; fr' = fr\<lparr>n2 := Some x\<rparr> in
      case x of
        None \<Rightarrow> (Return status_error, fr')
      | Some b \<Rightarrow>
          if b AND 0x04 \<noteq> 0 then (Return status_cover_open, fr')
          else if b AND 0x08 \<noteq> 0 then (Return status_paper_being_fed, fr')
          else if b AND 0x20 \<noteq> 0 then (Return status_oop, fr')
          else if b AND 0x40 \<noteq> 0 then (Return status_error, fr')
          else (Val (), fr'))"

text \<open>The \<open>try\<close> block of \<open>fetch_status\<close>, lines 73 to 125.\<close>

definition fetch_try :: "fetch_frame \<Rightarrow> unit res \<times> fetch_frame" where
  "fetch_try =
     seq (with_open (f_read 32)) (\<lambda>r.
     seq (with_open (f_write [0x10, 0x04, 0x01])) (\<lambda>_.
     seq (sleep 100) (\<lambda>_.
     seq (with_open (\<lambda>f. seq (f_read 32 f) phase1)) (\<lambda>_.
     seq (with_open (f_write [0x10, 0x04, 0x02])) (\<lambda>_.
     seq (sleep 100) (\<lambda>_.
     with_open (\<lambda>f. seq (f_read 32 f) phase2)))))))"

text \<open>
  The final statement, line 129: it reads both locals, and reading an unbound local
  raises \<open>UnboundLocalError\<close>.
\<close>

definition unrecognised :: "byte option \<Rightarrow> byte option \<Rightarrow> status_msg" where
  "unrecognised a b =
     status_message
       (''Unrecognised printer status: n1='' @ repr_opt a @ '' n2='' @ repr_opt b) False"

definition fallback :: "fetch_frame \<Rightarrow> exn + status_msg" where
  "fallback fr =
     (case n1 fr of
        None \<Rightarrow> Inl (UnboundLocalError ''n1'')
      | Some a \<Rightarrow>
          (case n2 fr of
             None \<Rightarrow> Inl (UnboundLocalError ''n2'')
           | Some b \<Rightarrow> Inr (unrecognised a b)))"

definition enter :: "rp \<Rightarrow> fetch_frame" where
  "enter self = rp.extend self \<lparr>n1 = None, n2 = None\<rparr>"

definition fetch_status :: "rp \<Rightarrow> (exn + status_msg) \<times> rp" where
  "fetch_status self =
     (case fetch_try (enter self) of
        (Return s, fr) \<Rightarrow> (Inr s, rp.truncate fr)
      | (Raise (IOError e), fr) \<Rightarrow> (Inr status_not_connected, rp.truncate fr)
      | (Raise x, fr) \<Rightarrow> (Inl x, rp.truncate fr)
      | (Val _, fr) \<Rightarrow> (fallback fr, rp.truncate fr))"

section \<open>Construction\<close>

text \<open>
  \<open>__init__\<close>, lines 35 to 50: the topic prefix gets a trailing slash unless it is empty
  or has one; the object starts disconnected, with status Offline and an empty queue.
  The environment is handed in.
\<close>

definition init ::
  "string \<Rightarrow> real \<Rightarrow> cycle stream \<Rightarrow> reconnect_reply stream \<Rightarrow> real stream \<Rightarrow>
   loop_reply stream \<Rightarrow> rp" where
  "init prefix interval d b c i =
     (let prefix' = (if prefix \<noteq> [] \<and> last prefix \<noteq> CHR ''/'' then prefix @ ''/'' else prefix)
      in \<lparr>status_topic = prefix' @ ''status'',
          print_topic = prefix' @ ''print'',
          printed_topic = prefix' @ ''printed'',
          status_check_interval = interval,
          connected = False,
          current_status = status_offline,
          print_queue = [],
          dev = d, broker = b, clock = c, inbox = i,
          trace = []\<rparr>)"

section \<open>Status publication\<close>

definition check_printer_status :: "rp \<Rightarrow> (exn + unit) \<times> rp" where
  "check_printer_status self =
     (case fetch_status self of
        (Inl e, s) \<Rightarrow> (Inl e, s)
      | (Inr new_status, s) \<Rightarrow>
          if new_status \<noteq> current_status s
          then (Inr (),
                emit [Publish (status_topic s) (StatusPayload new_status) True]
                  (s\<lparr>current_status := new_status\<rparr>))
          else (Inr (), s))"

section \<open>Bus callbacks\<close>

definition on_connect :: "int \<Rightarrow> rp \<Rightarrow> (exn + unit) \<times> rp" where
  "on_connect c self =
     (if c = 5 then (Inl (SystemExit 1), self)
      else if c = 0
        then (Inr (), emit [Subscribe (print_topic self)] (self\<lparr>connected := True\<rparr>))
        else (Inr (), self))"

definition send_print_status :: "string \<Rightarrow> string \<Rightarrow> bool \<Rightarrow> bool \<Rightarrow> rp \<Rightarrow> rp" where
  "send_print_status j m fin suc self =
     emit [Publish (printed_topic self)
             (PrintedPayload \<lparr>jobid = j, message = m, finished = fin, success = suc\<rparr>)
             False] self"

text \<open>
  What \<open>json.loads\<close> returns: the number type is left open (Python has ints and
  floats). An object is the list of its items, looked up by key.
\<close>

datatype 'n json =
    JNull
  | JBool bool
  | JNum 'n
  | JStr string
  | JArr "'n json list"
  | JObj "(string \<times> 'n json) list"

datatype 'n loads = JSONDecodeError | LoadsRaises exn | Loaded "'n json"

text \<open>
  The library calls of \<open>on_print_message\<close> are parameters: \<open>json.loads\<close> (which raises
  \<open>JSONDecodeError\<close>, raises something else, or returns a value), \<open>str\<close>, and
  \<open>base64.b64decode\<close> (which returns bytes or raises; \<open>Inl\<close> holds the \<open>repr\<close> of what
  it raised).
\<close>

record 'n pylib =
  json_loads :: "byte list \<Rightarrow> 'n loads"
  py_str :: "'n json \<Rightarrow> string"
  b64decode :: "'n json \<Rightarrow> string + byte list"

text \<open>Python's \<open>key in req\<close> for a string key, by the type of \<open>req\<close>.\<close>

definition substring :: "string \<Rightarrow> string \<Rightarrow> bool" where
  "substring p s = list_ex (\<lambda>i. take (length p) (drop i s) = p) [0 ..< Suc (length s)]"

fun py_in :: "string \<Rightarrow> 'n json \<Rightarrow> exn + bool" where
  "py_in k (JObj kv) = Inr (k \<in> set (map fst kv))"
| "py_in k (JArr xs) = Inr (JStr k \<in> set xs)"
| "py_in k (JStr s) = Inr (substring k s)"
| "py_in k _ = Inl (TypeError ''argument is not iterable'')"

text \<open>Python's \<open>req[key]\<close> for a string key.\<close>

fun py_getitem :: "'n json \<Rightarrow> string \<Rightarrow> exn + 'n json" where
  "py_getitem (JObj kv) k =
     (case map_of kv k of None \<Rightarrow> Inl (KeyError k) | Some v \<Rightarrow> Inr v)"
| "py_getitem _ k = Inl (TypeError ''indices must be integers or object is not subscriptable'')"

definition on_print_message :: "'n pylib \<Rightarrow> byte list \<Rightarrow> rp \<Rightarrow> (exn + unit) \<times> rp" where
  "on_print_message L payload self =
     (case json_loads L payload of
        JSONDecodeError \<Rightarrow> (Inr (), self)
      | LoadsRaises e \<Rightarrow> (Inl e, self)
      | Loaded req \<Rightarrow>
          (case py_in ''jobid'' req of
             Inl e \<Rightarrow> (Inl e, self)
           | Inr False \<Rightarrow> (Inr (), self)
           | Inr True \<Rightarrow>
               (case py_getitem req ''jobid'' of
                  Inl e \<Rightarrow> (Inl e, self)
                | Inr j \<Rightarrow>
                    (case py_in ''data'' req of
                       Inl e \<Rightarrow> (Inl e, self)
                     | Inr False \<Rightarrow>
                         (Inr (),
                          send_print_status (py_str L j) ''Aborted: missing data''
                            True False self)
                     | Inr True \<Rightarrow>
                         (case py_getitem req ''data'' of
                            Inl e \<Rightarrow> (Inl e, self)
                          | Inr d \<Rightarrow>
                              (case b64decode L d of
                                 Inl e \<Rightarrow>
                                   (Inr (),
                                    send_print_status (py_str L j)
                                      (''Error decoding data: e='' @ e) True False self)
                               | Inr data \<Rightarrow>
                                   (Inr (),
                                    self\<lparr>print_queue :=
                                           print_queue self @ [(py_str L j, data)]\<rparr>)))))))"

text \<open>
  \<open>self.mqttc.loop(timeout)\<close>: the client runs the callbacks for what arrived, in order,
  and returns its result code; an exception raised by a callback comes out of the call.
\<close>

fun deliver :: "'n pylib \<Rightarrow> callback list \<Rightarrow> rp \<Rightarrow> (exn + unit) \<times> rp" where
  "deliver L [] self = (Inr (), self)"
| "deliver L (cb # cbs) self =
     (case (case cb of
              OnConnect c \<Rightarrow> on_connect c self
            | OnPrintMessage p \<Rightarrow> on_print_message L p self) of
        (Inl e, s) \<Rightarrow> (Inl e, s)
      | (Inr _, s) \<Rightarrow> deliver L cbs s)"

definition loop :: "'n pylib \<Rightarrow> real \<Rightarrow> rp \<Rightarrow> (exn + loop_rc) \<times> rp" where
  "loop L timeout self =
     (let reply = shd (inbox self);
          s0 = emit [MqttLoop timeout] (self\<lparr>inbox := stl (inbox self)\<rparr>)
      in case deliver L (delivered reply) s0 of
           (Inl e, s) \<Rightarrow> (Inl e, s)
         | (Inr _, s) \<Rightarrow> (Inr (rc reply), s))"

section \<open>Run loop\<close>

text \<open>
  Lines 192 to 207: the queue block of one iteration. The success result is published
  inside the \<open>with\<close> block, after the write and before the close; \<open>except Exception\<close>
  catches whatever the block raises, also what the close raises.
\<close>

definition run_print :: "rp \<Rightarrow> (exn + unit) \<times> rp" where
  "run_print self =
     (case print_queue self of
        [] \<Rightarrow> (Inr (), self)
      | (j, data) # rest \<Rightarrow>
          (case fetch_status (self\<lparr>print_queue := rest\<rparr>) of
             (Inl e, s) \<Rightarrow> (Inl e, s)
           | (Inr st, s) \<Rightarrow>
               if ok st then
                 (case with_open (\<lambda>f. seq (f_write data f)
                          (\<lambda>_ s'. (Val (), send_print_status j ''Printed'' True True s'))) s of
                    (Raise e, s') \<Rightarrow>
                      (case e of
                         SystemExit n \<Rightarrow> (Inl e, s')
                       | _ \<Rightarrow>
                         (Inr (),
                          send_print_status j (''Print failed: e='' @ repr_exn e)
                            True False s'))
                  | (_, s') \<Rightarrow> (Inr (), s'))
               else (Inr (), send_print_status j (status st) True False s)))"

text \<open>
  Lines 209 to 214: the reconnect loop. It has no bound, so it is a partial function:
  \<open>None\<close> is a loop that never ends. A refusal sleeps one second (1000 ms); any other
  exception of \<open>reconnect\<close> leaves the loop and \<open>run\<close>.
\<close>

partial_function (option) run_reconnect :: "rp \<Rightarrow> ((exn + unit) \<times> rp) option" where
  "run_reconnect self =
     (if connected self then Some (Inr (), self)
      else
        (case shd (broker self) of
           Accepted \<Rightarrow>
             run_reconnect
               (emit [Reconnect] (self\<lparr>broker := stl (broker self), connected := True\<rparr>))
         | Refused \<Rightarrow>
             run_reconnect
               (emit [Reconnect, Sleep 1000] (self\<lparr>broker := stl (broker self)\<rparr>))
         | ReconnectRaises e \<Rightarrow>
             Some (Inl e, emit [Reconnect] (self\<lparr>broker := stl (broker self)\<rparr>))))"

text \<open>
  Lines 216 to 224: the poll block; the local \<open>status_check_deadline\<close> of \<open>run\<close> goes in
  and comes out. Times are reals (rounding of floats is not modelled).
\<close>

definition run_poll :: "'n pylib \<Rightarrow> real \<Rightarrow> rp \<Rightarrow> (exn + real) \<times> rp" where
  "run_poll L status_check_deadline self =
     (if connected self then
        (let now = shd (clock self); s0 = self\<lparr>clock := stl (clock self)\<rparr> in
         case (if status_check_deadline \<le> now
               then (case check_printer_status s0 of
                       (Inl e, s) \<Rightarrow> (Inl e, s)
                     | (Inr _, s) \<Rightarrow> (Inr (now + status_check_interval s), s))
               else (Inr status_check_deadline, s0)) of
           (Inl e, s1) \<Rightarrow> (Inl e, s1)
         | (Inr deadline, s1) \<Rightarrow>
             (case loop L (max (deadline - now) 0) s1 of
                (Inl e, s2) \<Rightarrow> (Inl e, s2)
              | (Inr c, s2) \<Rightarrow>
                  (Inr deadline,
                   if c = MQTT_ERR_CONN_LOST then s2\<lparr>connected := False\<rparr> else s2)))
      else (Inr status_check_deadline, self))"

text \<open>One iteration of the \<open>while True\<close> of \<open>run\<close>, and \<open>run\<close> itself.\<close>

definition run_body :: "'n pylib \<Rightarrow> real \<Rightarrow> rp \<Rightarrow> ((exn + real) \<times> rp) option" where
  "run_body L status_check_deadline self =
     (case run_print (emit [Watchdog] self) of
        (Inl e, s1) \<Rightarrow> Some (Inl e, s1)
      | (Inr _, s1) \<Rightarrow>
          (case run_reconnect s1 of
             None \<Rightarrow> None
           | Some (Inl e, s2) \<Rightarrow> Some (Inl e, s2)
           | Some (Inr _, s2) \<Rightarrow> Some (run_poll L status_check_deadline s2)))"

partial_function (option) run_from :: "'n pylib \<Rightarrow> real \<Rightarrow> rp \<Rightarrow> (exn \<times> rp) option" where
  "run_from L status_check_deadline self =
     (case run_body L status_check_deadline self of
        None \<Rightarrow> None
      | Some (Inl e, s) \<Rightarrow> Some (e, s)
      | Some (Inr d, s) \<Rightarrow> run_from L d s)"

definition run :: "'n pylib \<Rightarrow> rp \<Rightarrow> (exn \<times> rp) option" where
  "run L self = run_from L 0 self"

section \<open>Vocabulary for the statements\<close>

text \<open>
  A cycle in which open, read or write, and close all succeed; the events one call of
  \<open>fetch_status\<close> adds to the trace; counts of opens and reads and the total of the
  forced sleeps in a list of events.
\<close>

fun clean :: "cycle \<Rightarrow> bool" where
  "clean (Clean _) = True"
| "clean _ = False"

text \<open>The events of one cycle around a read of up to 32 bytes, and around a write.\<close>

fun read_cycle :: "cycle \<Rightarrow> event list" where
  "read_cycle (OpenFails e) = []"
| "read_cycle (OpFails e) = [DevOpen, DevClose]"
| "read_cycle (CloseFails bs e) = [DevOpen, DevRead (take 32 bs), DevClose]"
| "read_cycle (Clean bs) = [DevOpen, DevRead (take 32 bs), DevClose]"

fun write_cycle :: "byte list \<Rightarrow> cycle \<Rightarrow> event list" where
  "write_cycle cmd (OpenFails e) = []"
| "write_cycle cmd (OpFails e) = [DevOpen, DevClose]"
| "write_cycle cmd (CloseFails bs e) = [DevOpen, DevWrite cmd, DevClose]"
| "write_cycle cmd (Clean bs) = [DevOpen, DevWrite cmd, DevClose]"

definition new_events :: "rp \<Rightarrow> event list" where
  "new_events self = drop (length (trace self)) (trace (snd (fetch_status self)))"

definition opens :: "event list \<Rightarrow> nat" where
  "opens evs = length (filter (\<lambda>e. e = DevOpen) evs)"

fun slept :: "event list \<Rightarrow> nat" where
  "slept [] = 0"
| "slept (Sleep ms # evs) = ms + slept evs"
| "slept (_ # evs) = slept evs"

fun reads :: "event list \<Rightarrow> nat" where
  "reads [] = 0"
| "reads (DevRead _ # evs) = Suc (reads evs)"
| "reads (_ # evs) = reads evs"

text \<open>Reading a decimal numeral back: the inverse of \<open>repr_nat\<close>.\<close>

definition decimal :: "string \<Rightarrow> nat" where
  "decimal s = foldl (\<lambda>acc c. 10 * acc + (of_char c - 48)) 0 s"

text \<open>
  Example environments: a device that behaves as listed and is unplugged afterwards, and
  a freshly constructed printer object on such a device, with a broker that accepts and
  no inbound traffic.
\<close>

definition device :: "cycle list \<Rightarrow> cycle stream" where
  "device cs = cs @- sconst (OpenFails ''No such device'')"

definition printer :: "cycle list \<Rightarrow> rp" where
  "printer cs =
     init [] 5 (device cs) (sconst Accepted) (sconst 0)
       (sconst \<lparr>delivered = [], rc = MQTT_ERR_SUCCESS\<rparr>)"

text \<open>
  The first \<open>n\<close> iterations of the \<open>while True\<close> of \<open>run\<close>; a library whose
  \<open>json.loads\<close> rejects everything; a printer object that is connected, is about to be
  told by the event loop that the connection is lost, and faces a broker that refuses
  twice before it accepts.
\<close>

fun run_steps :: "nat \<Rightarrow> 'n pylib \<Rightarrow> real \<Rightarrow> rp \<Rightarrow> ((exn + real) \<times> rp) option" where
  "run_steps 0 L d self = Some (Inr d, self)"
| "run_steps (Suc n) L d self =
     (case run_body L d self of
        None \<Rightarrow> None
      | Some (Inl e, s) \<Rightarrow> Some (Inl e, s)
      | Some (Inr d', s) \<Rightarrow> run_steps n L d' s)"

definition deaf :: "int pylib" where
  "deaf = \<lparr>json_loads = (\<lambda>p. JSONDecodeError), py_str = (\<lambda>j. []), b64decode = (\<lambda>d. Inr [])\<rparr>"

definition lost_once :: rp where
  "lost_once =
     (printer [])
       \<lparr>connected := True,
        broker := Refused ## Refused ## sconst Accepted,
        inbox := \<lparr>delivered = [], rc = MQTT_ERR_CONN_LOST\<rparr> ##
                 sconst \<lparr>delivered = [], rc = MQTT_ERR_SUCCESS\<rparr>\<rparr>"

text \<open>
  A library that agrees with CPython on two payloads: the single byte 0xFF, which
  \<open>json.loads\<close> cannot decode as text (it raises \<open>UnicodeDecodeError\<close>, which is not a
  \<open>JSONDecodeError\<close>), and the request \<open>{"jobid": 7, "data": "!!!!"}\<close>, whose data
  \<open>b64decode\<close> accepts, since it discards the characters outside the base64 alphabet and
  decodes what is left, here nothing. Its values elsewhere are not used.
\<close>

definition noisy_request :: "byte list" where
  "noisy_request =
     [0x7B, 0x22, 0x6A, 0x6F, 0x62, 0x69, 0x64, 0x22, 0x3A, 0x20, 0x37, 0x2C, 0x20,
      0x22, 0x64, 0x61, 0x74, 0x61, 0x22, 0x3A, 0x20, 0x22, 0x21, 0x21, 0x21, 0x21, 0x22, 0x7D]"

definition cpython_sample :: "int pylib" where
  "cpython_sample =
     \<lparr>json_loads = (\<lambda>p.
        if p = [0xFF] then LoadsRaises (UnicodeDecodeError ''UnicodeDecodeError'')
        else if p = noisy_request
          then Loaded (JObj [(''jobid'', JNum 7), (''data'', JStr ''!!!!'')])
          else JSONDecodeError),
      py_str = (\<lambda>j. if j = JNum 7 then ''7'' else []),
      b64decode = (\<lambda>d. if d = JStr ''!!!!'' then Inr [] else Inl ''Error'')\<rparr>"

text \<open>
  A scan over a trace that checks the reading "a watchdog signal is emitted between any
  two successive reconnect attempts": the flag says that an attempt has been seen since
  the last watchdog signal.
\<close>

fun watchdog_between :: "bool \<Rightarrow> event list \<Rightarrow> bool" where
  "watchdog_between pending [] = True"
| "watchdog_between pending (Reconnect # evs) = (\<not> pending \<and> watchdog_between True evs)"
| "watchdog_between pending (Watchdog # evs) = watchdog_between False evs"
| "watchdog_between pending (_ # evs) = watchdog_between pending evs"

section \<open>The response scan\<close>

lemma find_Some: "find_dle_eot_response r = Some b \<Longrightarrow> b \<in> set r \<and> b AND 0x93 = 0x12"
  by (induction r) (auto split: if_splits)

lemma find_None: "(find_dle_eot_response r = None) = (\<forall>b\<in>set r. b AND 0x93 \<noteq> 0x12)"
  by (induction r) auto

lemma find_first:
  "(find_dle_eot_response r = Some a) =
   (\<exists>pre post. r = pre @ a # post \<and> (\<forall>b\<in>set pre. b AND 0x93 \<noteq> 0x12) \<and> a AND 0x93 = 0x12)"
proof (induction r)
  case Nil
  then show ?case by simp
next
  case (Cons c r)
  show ?case
  proof (cases "c AND 0x93 = 0x12")
    case True
    have "a = c" if "c # r = pre @ a # post" "\<forall>b\<in>set pre. b AND 0x93 \<noteq> 0x12" for pre post
      using that True by (cases pre) auto
    moreover have "\<exists>pre post. c # r = pre @ c # post \<and> (\<forall>b\<in>set pre. b AND 0x93 \<noteq> 0x12)"
      by (rule exI [of _ "[]"]) simp
    ultimately show ?thesis using True by auto
  next
    case False
    have "(\<exists>pre post. c # r = pre @ a # post \<and> (\<forall>b\<in>set pre. b AND 0x93 \<noteq> 0x12) \<and> a AND 0x93 = 0x12)
        = (\<exists>pre post. r = pre @ a # post \<and> (\<forall>b\<in>set pre. b AND 0x93 \<noteq> 0x12) \<and> a AND 0x93 = 0x12)"
      (is "?L = ?R")
    proof
      assume ?L
      then obtain pre post where h: "c # r = pre @ a # post" "\<forall>b\<in>set pre. b AND 0x93 \<noteq> 0x12" "a AND 0x93 = 0x12"
        by blast
      with False obtain pre' where "pre = c # pre'" by (cases pre) auto
      with h show ?R by auto
    next
      assume ?R
      then obtain pre post where h: "r = pre @ a # post" "\<forall>b\<in>set pre. b AND 0x93 \<noteq> 0x12" "a AND 0x93 = 0x12"
        by blast
      then have "c # r = (c # pre) @ a # post \<and> (\<forall>b\<in>set (c # pre). b AND 0x93 \<noteq> 0x12)"
        using False by simp
      with h(3) show ?L by blast
    qed
    with False Cons.IH show ?thesis by simp
  qed
qed

lemma only_marker:
  fixes b :: byte
  assumes "b AND 0x93 = 0x12" "b AND 0x04 = 0" "b AND 0x08 = 0" "b AND 0x20 = 0" "b AND 0x40 = 0"
  shows "b = 0x12"
proof -
  have full: "(0x93 :: byte) OR (0x04 OR (0x08 OR (0x20 OR 0x40))) = - 1" by simp
  have "b = b AND ((0x93 :: byte) OR (0x04 OR (0x08 OR (0x20 OR 0x40))))"
    by (simp only: full) simp
  also have "\<dots> = (b AND 0x93) OR ((b AND 0x04) OR ((b AND 0x08) OR ((b AND 0x20) OR (b AND 0x40))))"
    by (simp only: bit.conj_disj_distrib)
  also have "\<dots> = 0x12" by (simp only: assms) simp
  finally show ?thesis .
qed

section \<open>Decimal text of a byte\<close>

lemma digit_char: "d < 10 \<Longrightarrow> (of_char (''0123456789'' ! d) :: nat) = 48 + d"
proof -
  assume "d < 10"
  then have "d = 0 \<or> d = 1 \<or> d = 2 \<or> d = 3 \<or> d = 4 \<or> d = 5 \<or> d = 6 \<or> d = 7 \<or> d = 8 \<or> d = 9"
    by arith
  then show ?thesis by (elim disjE) simp_all
qed

lemma decimal_repr_nat: "decimal (repr_nat n) = n"
proof (induction n rule: repr_nat.induct)
  case (1 n)
  show ?case
  proof (cases "n < 10")
    case True
    then show ?thesis by (subst repr_nat.simps) (simp add: decimal_def digit_char)
  next
    case False
    then have "decimal (repr_nat (n div 10)) = n div 10" using "1.IH" by simp
    moreover have "n mod 10 < 10" by simp
    ultimately show ?thesis using False
      by (subst repr_nat.simps) (simp add: decimal_def digit_char)
  qed
qed

section \<open>The status query on a device that answers\<close>

lemmas fs_defs =
  fetch_status_def fetch_try_def seq_def with_open_def f_read_def f_write_def sleep_def
  emit_def phase1_def phase2_def enter_def rp.defs Let_def fallback_def

lemma fetch_status_no_response:
  assumes "dev self = Clean d ## Clean x ## Clean b1 ## rest"
    and "find_dle_eot_response (take 32 b1) = None"
  shows "fetch_status self =
    (Inr status_no_response,
     self\<lparr>dev := rest,
          trace := trace self @
            [DevOpen, DevRead (take 32 d), DevClose,
             DevOpen, DevWrite [0x10, 0x04, 0x01], DevClose, Sleep 100,
             DevOpen, DevRead (take 32 b1), DevClose]\<rparr>)"
  using assms by (simp add: fs_defs)

lemma fetch_status_ready:
  assumes "dev self = Clean d ## Clean x ## Clean b1 ## rest"
    and "find_dle_eot_response (take 32 b1) = Some a" and "a AND 0x28 = 0"
  shows "fetch_status self =
    (Inr status_ready,
     self\<lparr>dev := rest,
          trace := trace self @
            [DevOpen, DevRead (take 32 d), DevClose,
             DevOpen, DevWrite [0x10, 0x04, 0x01], DevClose, Sleep 100,
             DevOpen, DevRead (take 32 b1), DevClose]\<rparr>)"
  using assms by (simp add: fs_defs)

lemma fetch_status_phase2:
  assumes "dev self = Clean d ## Clean x ## Clean b1 ## Clean y ## Clean b2 ## rest"
    and "find_dle_eot_response (take 32 b1) = Some a" and "a AND 0x28 \<noteq> 0"
  shows "fetch_status self =
    (Inr (case find_dle_eot_response (take 32 b2) of
            None \<Rightarrow> status_error
          | Some b \<Rightarrow>
              if b AND 0x04 \<noteq> 0 then status_cover_open
              else if b AND 0x08 \<noteq> 0 then status_paper_being_fed
              else if b AND 0x20 \<noteq> 0 then status_oop
              else if b AND 0x40 \<noteq> 0 then status_error
              else unrecognised (Some a) (Some b)),
     self\<lparr>dev := rest,
          trace := trace self @
            [DevOpen, DevRead (take 32 d), DevClose,
             DevOpen, DevWrite [0x10, 0x04, 0x01], DevClose, Sleep 100,
             DevOpen, DevRead (take 32 b1), DevClose,
             DevOpen, DevWrite [0x10, 0x04, 0x02], DevClose, Sleep 100,
             DevOpen, DevRead (take 32 b2), DevClose]\<rparr>)"
  using assms by (simp add: fs_defs split: option.splits)

section \<open>The status query on a device that fails\<close>

lemma fetch_status_fail0:
  assumes "dev self = c0 ## rest" and "\<not> clean c0"
  shows "fetch_status self =
    (Inr status_not_connected, self\<lparr>dev := rest, trace := trace self @ read_cycle c0\<rparr>)"
  using assms by (cases c0) (simp_all add: fs_defs)

lemma fetch_status_fail1:
  assumes "dev self = Clean d ## c1 ## rest" and "\<not> clean c1"
  shows "fetch_status self =
    (Inr status_not_connected,
     self\<lparr>dev := rest,
          trace := trace self @ read_cycle (Clean d) @ write_cycle [0x10, 0x04, 0x01] c1\<rparr>)"
  using assms by (cases c1) (simp_all add: fs_defs)

lemma fetch_status_fail2:
  assumes "dev self = Clean d ## Clean x ## c2 ## rest" and "\<not> clean c2"
  shows "fetch_status self =
    (Inr status_not_connected,
     self\<lparr>dev := rest,
          trace := trace self @ read_cycle (Clean d) @ write_cycle [0x10, 0x04, 0x01] (Clean x) @
            Sleep 100 # read_cycle c2\<rparr>)"
  using assms by (cases c2) (simp_all add: fs_defs split: option.splits)

lemma fetch_status_fail3:
  assumes "dev self = Clean d ## Clean x ## Clean b1 ## c3 ## rest" and "\<not> clean c3"
    and "find_dle_eot_response (take 32 b1) = Some a" and "a AND 0x28 \<noteq> 0"
  shows "fetch_status self =
    (Inr status_not_connected,
     self\<lparr>dev := rest,
          trace := trace self @ read_cycle (Clean d) @ write_cycle [0x10, 0x04, 0x01] (Clean x) @
            Sleep 100 # read_cycle (Clean b1) @ write_cycle [0x10, 0x04, 0x02] c3\<rparr>)"
  using assms by (cases c3) (simp_all add: fs_defs)

lemma fetch_status_fail4:
  assumes "dev self = Clean d ## Clean x ## Clean b1 ## Clean y ## c4 ## rest" and "\<not> clean c4"
    and "find_dle_eot_response (take 32 b1) = Some a" and "a AND 0x28 \<noteq> 0"
  shows "fetch_status self =
    (Inr status_not_connected,
     self\<lparr>dev := rest,
          trace := trace self @ read_cycle (Clean d) @ write_cycle [0x10, 0x04, 0x01] (Clean x) @
            Sleep 100 # read_cycle (Clean b1) @ write_cycle [0x10, 0x04, 0x02] (Clean y) @
            Sleep 100 # read_cycle c4\<rparr>)"
  using assms by (cases c4) (simp_all add: fs_defs split: option.splits)

section \<open>The status query in general\<close>

lemma clean_iff: "clean c = (\<exists>bs. c = Clean bs)"
  by (cases c) simp_all

lemma stream_five: "\<exists>c0 c1 c2 c3 c4 rest. s = c0 ## c1 ## c2 ## c3 ## c4 ## rest"
  by (metis stream.collapse)

lemma fetch_status_cases [case_names fail0 fail1 fail2 no_response ready fail3 fail4 phase2]:
  obtains
    c0 rest where "dev self = c0 ## rest" "\<not> clean c0"
  | d c1 rest where "dev self = Clean d ## c1 ## rest" "\<not> clean c1"
  | d x c2 rest where "dev self = Clean d ## Clean x ## c2 ## rest" "\<not> clean c2"
  | d x b1 rest where "dev self = Clean d ## Clean x ## Clean b1 ## rest"
      "find_dle_eot_response (take 32 b1) = None"
  | d x b1 rest a where "dev self = Clean d ## Clean x ## Clean b1 ## rest"
      "find_dle_eot_response (take 32 b1) = Some a" "a AND 0x28 = 0"
  | d x b1 c3 rest a where "dev self = Clean d ## Clean x ## Clean b1 ## c3 ## rest"
      "\<not> clean c3" "find_dle_eot_response (take 32 b1) = Some a" "a AND 0x28 \<noteq> 0"
  | d x b1 y c4 rest a where "dev self = Clean d ## Clean x ## Clean b1 ## Clean y ## c4 ## rest"
      "\<not> clean c4" "find_dle_eot_response (take 32 b1) = Some a" "a AND 0x28 \<noteq> 0"
  | d x b1 y b2 rest a where
      "dev self = Clean d ## Clean x ## Clean b1 ## Clean y ## Clean b2 ## rest"
      "find_dle_eot_response (take 32 b1) = Some a" "a AND 0x28 \<noteq> 0"
proof -
  obtain c0 c1 c2 c3 c4 rest where d: "dev self = c0 ## c1 ## c2 ## c3 ## c4 ## rest"
    using stream_five [of "dev self"] by blast
  show thesis
  proof (cases "clean c0 \<and> clean c1 \<and> clean c2")
    case False
    then consider "\<not> clean c0" | "clean c0" "\<not> clean c1" | "clean c0" "clean c1" "\<not> clean c2"
      by blast
    then show thesis
    proof cases
      case 1
      with d show thesis by (rule that(1))
    next
      case 2
      with d show thesis by (auto simp: clean_iff intro: that(2))
    next
      case 3
      with d show thesis by (auto simp: clean_iff intro: that(3))
    qed
  next
    case True
    then obtain d0 x b1 where c: "c0 = Clean d0" "c1 = Clean x" "c2 = Clean b1"
      by (auto simp: clean_iff)
    show thesis
    proof (cases "find_dle_eot_response (take 32 b1)")
      case None
      with d c show thesis by (auto intro: that(4))
    next
      case (Some a)
      show thesis
      proof (cases "a AND 0x28 = 0")
        case True
        with d c Some show thesis by (auto intro: that(5))
      next
        case nz: False
        show thesis
        proof (cases "clean c3")
          case False
          with d c Some nz show thesis by (auto intro: that(6))
        next
          case True
          then obtain y where y: "c3 = Clean y" by (auto simp: clean_iff)
          show thesis
          proof (cases "clean c4")
            case False
            with d c y Some nz show thesis by (auto intro: that(7))
          next
            case True
            then obtain b2 where "c4 = Clean b2" by (auto simp: clean_iff)
            with d c y Some nz show thesis by (auto intro: that(8))
          qed
        qed
      qed
    qed
  qed
qed

lemma fetch_status_effect:
  "\<exists>st d' evs. fetch_status self = (Inr st, self\<lparr>dev := d', trace := trace self @ evs\<rparr>) \<and>
     opens evs \<le> 5 \<and> reads evs \<le> 3 \<and> slept evs \<le> 200 \<and>
     Watchdog \<notin> set evs \<and> Reconnect \<notin> set evs \<and>
     (st \<in> {status_not_connected, status_no_response, status_ready, status_error,
             status_cover_open, status_paper_being_fed, status_oop} \<or>
      (\<exists>a b. st = unrecognised a b))"
proof (cases self rule: fetch_status_cases)
  case (fail0 c0 rest)
  show ?thesis
    unfolding fetch_status_fail0 [OF fail0]
    by (intro exI [of _ status_not_connected] exI [of _ rest] exI [of _ "read_cycle c0"])
      (cases c0; simp add: opens_def)
next
  case (fail1 d c1 rest)
  show ?thesis
    unfolding fetch_status_fail1 [OF fail1]
    by (intro exI [of _ status_not_connected] exI [of _ rest]
          exI [of _ "read_cycle (Clean d) @ write_cycle [0x10, 0x04, 0x01] c1"])
      (cases c1; simp add: opens_def)
next
  case (fail2 d x c2 rest)
  show ?thesis
    unfolding fetch_status_fail2 [OF fail2]
    by (intro exI [of _ status_not_connected] exI [of _ rest]
          exI [of _ "read_cycle (Clean d) @ write_cycle [0x10, 0x04, 0x01] (Clean x) @
            Sleep 100 # read_cycle c2"])
      (cases c2; simp add: opens_def)
next
  case (no_response d x b1 rest)
  show ?thesis
    unfolding fetch_status_no_response [OF no_response]
    by (intro exI [of _ status_no_response] exI [of _ rest]
          exI [of _ "[DevOpen, DevRead (take 32 d), DevClose,
             DevOpen, DevWrite [0x10, 0x04, 0x01], DevClose, Sleep 100,
             DevOpen, DevRead (take 32 b1), DevClose]"])
      (simp add: opens_def)
next
  case (ready d x b1 rest a)
  show ?thesis
    unfolding fetch_status_ready [OF ready]
    by (intro exI [of _ status_ready] exI [of _ rest]
          exI [of _ "[DevOpen, DevRead (take 32 d), DevClose,
             DevOpen, DevWrite [0x10, 0x04, 0x01], DevClose, Sleep 100,
             DevOpen, DevRead (take 32 b1), DevClose]"])
      (simp add: opens_def)
next
  case (fail3 d x b1 c3 rest a)
  show ?thesis
    unfolding fetch_status_fail3 [OF fail3]
    by (intro exI [of _ status_not_connected] exI [of _ rest]
          exI [of _ "read_cycle (Clean d) @ write_cycle [0x10, 0x04, 0x01] (Clean x) @
            Sleep 100 # read_cycle (Clean b1) @ write_cycle [0x10, 0x04, 0x02] c3"])
      (cases c3; simp add: opens_def)
next
  case (fail4 d x b1 y c4 rest a)
  show ?thesis
    unfolding fetch_status_fail4 [OF fail4]
    by (intro exI [of _ status_not_connected] exI [of _ rest]
          exI [of _ "read_cycle (Clean d) @ write_cycle [0x10, 0x04, 0x01] (Clean x) @
            Sleep 100 # read_cycle (Clean b1) @ write_cycle [0x10, 0x04, 0x02] (Clean y) @
            Sleep 100 # read_cycle c4"])
      (cases c4; simp add: opens_def)
next
  case (phase2 d x b1 y b2 rest a)
  show ?thesis
    unfolding fetch_status_phase2 [OF phase2]
    by (intro exI [of _ "case find_dle_eot_response (take 32 b2) of
            None \<Rightarrow> status_error
          | Some b \<Rightarrow>
              if b AND 0x04 \<noteq> 0 then status_cover_open
              else if b AND 0x08 \<noteq> 0 then status_paper_being_fed
              else if b AND 0x20 \<noteq> 0 then status_oop
              else if b AND 0x40 \<noteq> 0 then status_error
              else unrecognised (Some a) (Some b)"] exI [of _ rest]
          exI [of _ "[DevOpen, DevRead (take 32 d), DevClose,
             DevOpen, DevWrite [0x10, 0x04, 0x01], DevClose, Sleep 100,
             DevOpen, DevRead (take 32 b1), DevClose,
             DevOpen, DevWrite [0x10, 0x04, 0x02], DevClose, Sleep 100,
             DevOpen, DevRead (take 32 b2), DevClose]"])
      (auto simp: opens_def split: option.splits)
qed

lemma fetch_status_total: "\<exists>s. fst (fetch_status self) = Inr s"
  using fetch_status_effect [of self] by auto

lemma fetch_status_trace: "trace (snd (fetch_status self)) = trace self @ new_events self"
  using fetch_status_effect [of self] by (auto simp: new_events_def)

lemma fetch_status_frame:
  "current_status (snd (fetch_status self)) = current_status self \<and>
   status_topic (snd (fetch_status self)) = status_topic self \<and>
   printed_topic (snd (fetch_status self)) = printed_topic self \<and>
   print_queue (snd (fetch_status self)) = print_queue self \<and>
   connected (snd (fetch_status self)) = connected self \<and>
   broker (snd (fetch_status self)) = broker self"
  using fetch_status_effect [of self] by auto

text \<open>How the \<open>try\<close> block can end, and what the locals hold when it falls through.\<close>

lemma fetch_try_outcome:
  "case fetch_try (enter self) of
     (Raise e, fr) \<Rightarrow> (\<exists>m. e = IOError m)
   | (Return s, fr) \<Rightarrow> True
   | (Val u, fr) \<Rightarrow>
       (\<exists>a b. n1 fr = Some (Some a) \<and> n2 fr = Some (Some b) \<and>
          a AND 0x93 = 0x12 \<and> a AND 0x28 \<noteq> 0 \<and> b AND 0x93 = 0x12 \<and>
          b AND 0x04 = 0 \<and> b AND 0x08 = 0 \<and> b AND 0x20 = 0 \<and> b AND 0x40 = 0)"
  by (auto simp: fetch_try_def seq_def with_open_def f_read_def f_write_def sleep_def
        emit_def phase1_def phase2_def enter_def rp.defs Let_def
      split: cycle.splits option.splits dest: find_Some)

section \<open>The decision of the status query\<close>

text \<open>
  Claim C1. In a call of \<open>fetch_status\<close> where every device cycle succeeds (the drain,
  the phase-1 write and the phase-1 read \<open>r1\<close>, and, when phase 2 runs, its write and
  its read \<open>r2\<close>): if no byte of \<open>r1\<close> passes the mask test the result is NoResponse; if
  the accepted byte of \<open>r1\<close> has bits 0x28 clear the result is Ready and the phase-2
  command is not written; otherwise phase 2 is written, and the result is Error if no
  byte of \<open>r2\<close> passes the mask test, else the accepted byte of \<open>r2\<close> is tested for 0x04
  (CoverOpen), 0x08 (PaperBeingFed), 0x20 (OutOfPaper), 0x40 (Error) in this order, and
  if none is set the result is the status, not ok, whose text is
  \<open>Unrecognised printer status: n1=\<close>, the decimal numeral of the accepted byte of \<open>r1\<close>,
  \<open> n2=\<close>, and the decimal numeral of the accepted byte of \<open>r2\<close>; each numeral reads back
  as the value of its byte. The accepted byte is the first one that passes the mask test
  (\<open>find_first\<close>).
\<close>

theorem fetch_status_decision:
  assumes "dev self = Clean d ## Clean x ## Clean b1 ## rest"
    and "r1 = take 32 b1"
  shows
    "((\<forall>b\<in>set r1. b AND 0x93 \<noteq> 0x12) \<longrightarrow>
        fst (fetch_status self) = Inr status_no_response) \<and>
     (\<forall>a. find_dle_eot_response r1 = Some a \<and> a AND 0x28 = 0 \<longrightarrow>
        fst (fetch_status self) = Inr status_ready \<and>
        DevWrite [0x10, 0x04, 0x02] \<notin> set (new_events self)) \<and>
     (\<forall>a y b2 rest' r2.
        find_dle_eot_response r1 = Some a \<and> a AND 0x28 \<noteq> 0 \<and>
        rest = Clean y ## Clean b2 ## rest' \<and> r2 = take 32 b2 \<longrightarrow>
        DevWrite [0x10, 0x04, 0x02] \<in> set (new_events self) \<and>
        ((\<forall>b\<in>set r2. b AND 0x93 \<noteq> 0x12) \<longrightarrow>
           fst (fetch_status self) = Inr status_error) \<and>
        (\<forall>b. find_dle_eot_response r2 = Some b \<longrightarrow>
           fst (fetch_status self) =
             Inr (if b AND 0x04 \<noteq> 0 then status_cover_open
                  else if b AND 0x08 \<noteq> 0 then status_paper_being_fed
                  else if b AND 0x20 \<noteq> 0 then status_oop
                  else if b AND 0x40 \<noteq> 0 then status_error
                  else \<lparr>status = ''Unrecognised printer status: n1='' @ repr_nat (unat a) @
                                  '' n2='' @ repr_nat (unat b),
                        ok = False\<rparr>) \<and>
           decimal (repr_nat (unat a)) = unat a \<and> decimal (repr_nat (unat b)) = unat b))"
proof (intro conjI allI impI)
  assume "\<forall>b\<in>set r1. b AND 0x93 \<noteq> 0x12"
  then have "find_dle_eot_response (take 32 b1) = None"
    using assms(2) by (simp add: find_None)
  from fetch_status_no_response [OF assms(1) this]
  show "fst (fetch_status self) = Inr status_no_response" by simp
next
  fix a
  assume "find_dle_eot_response r1 = Some a \<and> a AND 0x28 = 0"
  then have h: "find_dle_eot_response (take 32 b1) = Some a" "a AND 0x28 = 0"
    using assms(2) by simp_all
  note eq = fetch_status_ready [OF assms(1) h]
  show "fst (fetch_status self) = Inr status_ready" by (simp add: eq)
  show "DevWrite [0x10, 0x04, 0x02] \<notin> set (new_events self)"
    by (simp add: new_events_def eq)
next
  fix a y b2 rest' r2
  assume "find_dle_eot_response r1 = Some a \<and> a AND 0x28 \<noteq> 0 \<and>
    rest = Clean y ## Clean b2 ## rest' \<and> r2 = take 32 b2"
  then have h: "find_dle_eot_response (take 32 b1) = Some a" "a AND 0x28 \<noteq> 0"
    and d: "dev self = Clean d ## Clean x ## Clean b1 ## Clean y ## Clean b2 ## rest'"
    and r2: "r2 = take 32 b2"
    using assms by simp_all
  note eq = fetch_status_phase2 [OF d h]
  show "DevWrite [0x10, 0x04, 0x02] \<in> set (new_events self)"
    by (simp add: new_events_def eq)
  {
    assume "\<forall>b\<in>set r2. b AND 0x93 \<noteq> 0x12"
    then have "find_dle_eot_response (take 32 b2) = None"
      using r2 by (simp add: find_None)
    then show "fst (fetch_status self) = Inr status_error" by (simp add: eq)
  }
  {
    fix b
    assume "find_dle_eot_response r2 = Some b"
    then have "find_dle_eot_response (take 32 b2) = Some b" using r2 by simp
    then show "fst (fetch_status self) =
             Inr (if b AND 0x04 \<noteq> 0 then status_cover_open
                  else if b AND 0x08 \<noteq> 0 then status_paper_being_fed
                  else if b AND 0x20 \<noteq> 0 then status_oop
                  else if b AND 0x40 \<noteq> 0 then status_error
                  else \<lparr>status = ''Unrecognised printer status: n1='' @ repr_nat (unat a) @
                                  '' n2='' @ repr_nat (unat b),
                        ok = False\<rparr>)"
      by (simp add: eq unrecognised_def repr_opt_def status_message_def)
    show "decimal (repr_nat (unat a)) = unat a" by (rule decimal_repr_nat)
    show "decimal (repr_nat (unat b)) = unat b" by (rule decimal_repr_nat)
  }
qed

theorem fetch_status_decision_witness:
  "fst (fetch_status (printer [Clean [], Clean [], Clean [0x00, 0x28]])) = Inr status_no_response \<and>
   fst (fetch_status (printer [Clean [], Clean [], Clean [0x00, 0x12, 0x3A]])) = Inr status_ready \<and>
   DevWrite [0x10, 0x04, 0x02] \<notin> set (new_events (printer [Clean [], Clean [], Clean [0x00, 0x12, 0x3A]])) \<and>
   fst (fetch_status (printer [Clean [], Clean [], Clean [0x3A], Clean [], Clean [0x07, 0x7E]])) = Inr status_cover_open \<and>
   fst (fetch_status (printer [Clean [], Clean [], Clean [0x7A], Clean [], Clean [0x07, 0x12]])) =
     Inr \<lparr>status = ''Unrecognised printer status: n1=122 n2=18'', ok = False\<rparr> \<and>
   fst (fetch_status (printer [Clean [], Clean [], Clean [0x3A], Clean [], Clean [0x07]])) = Inr status_error"
proof -
  let ?tl = "sconst (OpenFails ''No such device'')"
  have d: "dev (printer (Clean [] # Clean [] # Clean bs # cs)) = Clean [] ## Clean [] ## Clean bs ## device cs" for bs cs
    by (simp add: printer_def init_def device_def)
  have t: "device [Clean [], Clean bs] = Clean [] ## Clean bs ## ?tl" for bs
    by (simp add: device_def)
  note th = fetch_status_decision [OF d refl]
  have 1: "fst (fetch_status (printer [Clean [], Clean [], Clean [0x00, 0x28]])) = Inr status_no_response"
    using th [of "[0x00, 0x28]" "[]", THEN conjunct1] by simp
  have 2: "fst (fetch_status (printer [Clean [], Clean [], Clean [0x00, 0x12, 0x3A]])) = Inr status_ready \<and>
   DevWrite [0x10, 0x04, 0x02] \<notin> set (new_events (printer [Clean [], Clean [], Clean [0x00, 0x12, 0x3A]]))"
    using th [of "[0x00, 0x12, 0x3A]" "[]", THEN conjunct2, THEN conjunct1, rule_format, of "0x12"] by simp
  note p2 = th [THEN conjunct2, THEN conjunct2, rule_format, OF conjI [OF _ conjI [OF _ conjI [OF t refl]]]]
  have 3: "fst (fetch_status (printer [Clean [], Clean [], Clean [0x3A], Clean [], Clean [0x07, 0x7E]])) = Inr status_cover_open"
    using p2 [of "[0x3A]" "0x3A" "[0x07, 0x7E]", THEN conjunct2, THEN conjunct2, rule_format, of "0x7E"] by simp
  have 4: "fst (fetch_status (printer [Clean [], Clean [], Clean [0x7A], Clean [], Clean [0x07, 0x12]])) =
     Inr \<lparr>status = ''Unrecognised printer status: n1=122 n2=18'', ok = False\<rparr>"
    using p2 [of "[0x7A]" "0x7A" "[0x07, 0x12]", THEN conjunct2, THEN conjunct2, rule_format, of "0x12"]
    by (simp add: repr_nat.simps)
  have 5: "fst (fetch_status (printer [Clean [], Clean [], Clean [0x3A], Clean [], Clean [0x07]])) = Inr status_error"
    using p2 [of "[0x3A]" "0x3A" "[0x07]", THEN conjunct2, THEN conjunct1] by simp
  from 1 2 3 4 5 show ?thesis by simp
qed

section \<open>The examples of the decoding table\<close>

text \<open>
  Claim C4, as stated, fails: the bytes 0x00, 0x28 and 0x04 of the examples do not pass
  the mask test, so the scan skips them. A phase-1 response that consists of the byte
  0x00 gives NoResponse, not Ready, and so does a phase-1 response 0x28 followed by a
  phase-2 response 0x04, which is not CoverOpen; after an accepted phase-1 byte 0x3A, a
  phase-2 response 0x04 counts as no response and gives Error, not CoverOpen.
\<close>

theorem decoding_examples_counterexample:
  "fst (fetch_status (printer [Clean [], Clean [], Clean [0x00]])) = Inr status_no_response \<and>
   fst (fetch_status (printer [Clean [], Clean [], Clean [0x00]])) \<noteq> Inr status_ready \<and>
   fst (fetch_status (printer [Clean [], Clean [], Clean [0x28], Clean [], Clean [0x04]])) =
     Inr status_no_response \<and>
   fst (fetch_status (printer [Clean [], Clean [], Clean [0x28], Clean [], Clean [0x04]])) \<noteq>
     Inr status_cover_open \<and>
   fst (fetch_status (printer [Clean [], Clean [], Clean [0x3A], Clean [], Clean [0x04]])) =
     Inr status_error \<and>
   fst (fetch_status (printer [Clean [], Clean [], Clean [0x3A], Clean [], Clean [0x04]])) \<noteq>
     Inr status_cover_open"
  by (simp add: printer_def init_def device_def fs_defs status_no_response_def
      status_ready_def status_cover_open_def status_error_def status_message_def)

text \<open>
  Claim C4, amended. With the marker bits 0x12 that the mask test asks for added to each
  example byte, the decoding is the documented one: an accepted phase-1 byte 0x12 gives
  Ready and the phase-2 command is not written; an accepted phase-1 byte 0x3A with an
  accepted phase-2 byte 0x16 gives CoverOpen; an accepted phase-1 byte 0x3A with an
  accepted phase-2 byte that has none of 0x04, 0x08, 0x20, 0x40 set (such a byte is
  0x12) gives the Unrecognised status that carries both bytes, in decimal.
\<close>

theorem decoding_examples:
  assumes "dev self = Clean d ## Clean x ## Clean b1 ## rest"
  shows
    "(find_dle_eot_response (take 32 b1) = Some 0x12 \<longrightarrow>
        fst (fetch_status self) = Inr status_ready \<and>
        DevWrite [0x10, 0x04, 0x02] \<notin> set (new_events self)) \<and>
     (\<forall>y b2 rest'.
        find_dle_eot_response (take 32 b1) = Some 0x3A \<and>
        rest = Clean y ## Clean b2 ## rest' \<longrightarrow>
        (find_dle_eot_response (take 32 b2) = Some 0x16 \<longrightarrow>
           fst (fetch_status self) = Inr status_cover_open) \<and>
        (\<forall>b. find_dle_eot_response (take 32 b2) = Some b \<and>
             b AND 0x04 = 0 \<and> b AND 0x08 = 0 \<and> b AND 0x20 = 0 \<and> b AND 0x40 = 0 \<longrightarrow>
             b = 0x12 \<and>
             fst (fetch_status self) = Inr (unrecognised (Some 0x3A) (Some b)) \<and>
             unrecognised (Some 0x3A) (Some b) =
               status_message ''Unrecognised printer status: n1=58 n2=18'' False))"
proof (intro conjI allI impI)
  assume h: "find_dle_eot_response (take 32 b1) = Some 0x12"
  have z: "(0x12 :: byte) AND 0x28 = 0" by simp
  note eq = fetch_status_ready [OF assms h z]
  show "fst (fetch_status self) = Inr status_ready" by (simp add: eq)
  show "DevWrite [0x10, 0x04, 0x02] \<notin> set (new_events self)"
    by (simp add: new_events_def eq)
next
  fix y b2 rest'
  assume "find_dle_eot_response (take 32 b1) = Some 0x3A \<and> rest = Clean y ## Clean b2 ## rest'"
  then have h: "find_dle_eot_response (take 32 b1) = Some 0x3A"
    and d: "dev self = Clean d ## Clean x ## Clean b1 ## Clean y ## Clean b2 ## rest'"
    using assms by simp_all
  have nz: "(0x3A :: byte) AND 0x28 \<noteq> 0" by simp
  note eq = fetch_status_phase2 [OF d h nz]
  {
    assume "find_dle_eot_response (take 32 b2) = Some 0x16"
    then show "fst (fetch_status self) = Inr status_cover_open" by (simp add: eq)
  }
  {
    fix b
    assume "find_dle_eot_response (take 32 b2) = Some b \<and>
             b AND 0x04 = 0 \<and> b AND 0x08 = 0 \<and> b AND 0x20 = 0 \<and> b AND 0x40 = 0"
    then have f: "find_dle_eot_response (take 32 b2) = Some b"
      and bits: "b AND 0x04 = 0" "b AND 0x08 = 0" "b AND 0x20 = 0" "b AND 0x40 = 0"
      by simp_all
    from f have "b AND 0x93 = 0x12" by (rule find_Some [THEN conjunct2])
    then show b: "b = 0x12" using bits by (rule only_marker)
    show "fst (fetch_status self) = Inr (unrecognised (Some 0x3A) (Some b))"
      using f bits by (simp add: eq)
    show "unrecognised (Some 0x3A) (Some b) =
               status_message ''Unrecognised printer status: n1=58 n2=18'' False"
      by (simp add: b unrecognised_def repr_opt_def repr_nat.simps)
  }
qed

theorem decoding_examples_witness:
  "fst (fetch_status (printer [Clean [], Clean [], Clean [0x12]])) = Inr status_ready \<and>
   DevWrite [0x10, 0x04, 0x02] \<notin> set (new_events (printer [Clean [], Clean [], Clean [0x12]])) \<and>
   fst (fetch_status (printer [Clean [], Clean [], Clean [0x3A], Clean [], Clean [0x16]])) =
     Inr status_cover_open \<and>
   fst (fetch_status (printer [Clean [], Clean [], Clean [0x3A], Clean [], Clean [0x12]])) =
     Inr (status_message ''Unrecognised printer status: n1=58 n2=18'' False)"
proof -
  have d: "dev (printer (Clean [] # Clean [] # Clean bs # cs)) =
      Clean [] ## Clean [] ## Clean bs ## device cs" for bs cs
    by (simp add: printer_def init_def device_def)
  have t: "device [Clean [], Clean bs] = Clean [] ## Clean bs ## sconst (OpenFails ''No such device'')" for bs
    by (simp add: device_def)
  note th = decoding_examples [OF d]
  have 1: "fst (fetch_status (printer [Clean [], Clean [], Clean [0x12]])) = Inr status_ready \<and>
    DevWrite [0x10, 0x04, 0x02] \<notin> set (new_events (printer [Clean [], Clean [], Clean [0x12]]))"
    using th [of "[0x12]" "[]", THEN conjunct1] by simp
  note p2 = th [THEN conjunct2, rule_format, OF conjI [OF _ t]]
  have 2: "fst (fetch_status (printer [Clean [], Clean [], Clean [0x3A], Clean [], Clean [0x16]])) =
     Inr status_cover_open"
    using p2 [of "[0x3A]" "[0x16]", THEN conjunct1] by simp
  have 3: "fst (fetch_status (printer [Clean [], Clean [], Clean [0x3A], Clean [], Clean [0x12]])) =
     Inr (status_message ''Unrecognised printer status: n1=58 n2=18'' False)"
    using p2 [of "[0x3A]" "[0x12]", THEN conjunct2, rule_format, of "0x12"] by simp
  from 1 2 3 show ?thesis by simp
qed

section \<open>Cycles, drains and delays of the status query\<close>

text \<open>
  Claim C5, as stated, fails. A query in which phase 2 runs and every step succeeds
  opens the device five times, not at most four, and reads three times (the drain and
  the two responses): phase 2's command follows the phase-1 read at once, with no
  drain of its own. A query that phase 1 answers with Ready sleeps 100 ms in all, not
  200 ms.
\<close>

theorem fetch_status_cycles_counterexample:
  "new_events (printer [Clean [0xFF], Clean [], Clean [0x3A], Clean [], Clean [0x16]]) =
     [DevOpen, DevRead [0xFF], DevClose,
      DevOpen, DevWrite [0x10, 0x04, 0x01], DevClose, Sleep 100,
      DevOpen, DevRead [0x3A], DevClose,
      DevOpen, DevWrite [0x10, 0x04, 0x02], DevClose, Sleep 100,
      DevOpen, DevRead [0x16], DevClose] \<and>
   \<not> opens (new_events (printer [Clean [0xFF], Clean [], Clean [0x3A], Clean [], Clean [0x16]])) \<le> 4 \<and>
   reads (new_events (printer [Clean [0xFF], Clean [], Clean [0x3A], Clean [], Clean [0x16]])) = 3 \<and>
   fst (fetch_status (printer [Clean [], Clean [], Clean [0x12]])) = Inr status_ready \<and>
   slept (new_events (printer [Clean [], Clean [], Clean [0x12]])) \<noteq> 200"
  by (simp add: printer_def init_def device_def fs_defs new_events_def opens_def)

text \<open>
  Claim C5, amended. One call of \<open>fetch_status\<close> adds its events to the trace and never
  opens the device more than five times, reads more than three times, or sleeps more
  than 200 ms in all. When every step succeeds and phase 2 runs, the events are: one
  drain, the phase-1 command, 100 ms, the phase-1 read, the phase-2 command (no drain
  before it), 100 ms, the phase-2 read: five cycles and 200 ms. When every step succeeds
  and phase 1 ends the query (NoResponse or Ready), they are the first three cycles and
  100 ms.
\<close>

theorem fetch_status_cycles:
  "trace (snd (fetch_status self)) = trace self @ new_events self \<and>
   opens (new_events self) \<le> 5 \<and> reads (new_events self) \<le> 3 \<and>
   slept (new_events self) \<le> 200 \<and>
   (\<forall>d x b1 y b2 rest a.
      dev self = Clean d ## Clean x ## Clean b1 ## Clean y ## Clean b2 ## rest \<and>
      find_dle_eot_response (take 32 b1) = Some a \<and> a AND 0x28 \<noteq> 0 \<longrightarrow>
      new_events self =
        [DevOpen, DevRead (take 32 d), DevClose,
         DevOpen, DevWrite [0x10, 0x04, 0x01], DevClose, Sleep 100,
         DevOpen, DevRead (take 32 b1), DevClose,
         DevOpen, DevWrite [0x10, 0x04, 0x02], DevClose, Sleep 100,
         DevOpen, DevRead (take 32 b2), DevClose]) \<and>
   (\<forall>d x b1 rest.
      dev self = Clean d ## Clean x ## Clean b1 ## rest \<and>
      (find_dle_eot_response (take 32 b1) = None \<or>
       (\<exists>a. find_dle_eot_response (take 32 b1) = Some a \<and> a AND 0x28 = 0)) \<longrightarrow>
      new_events self =
        [DevOpen, DevRead (take 32 d), DevClose,
         DevOpen, DevWrite [0x10, 0x04, 0x01], DevClose, Sleep 100,
         DevOpen, DevRead (take 32 b1), DevClose])"
proof (intro conjI allI impI)
  show "trace (snd (fetch_status self)) = trace self @ new_events self"
    by (rule fetch_status_trace)
  obtain st d' evs where
    eq: "fetch_status self = (Inr st, self\<lparr>dev := d', trace := trace self @ evs\<rparr>)"
    and b: "opens evs \<le> 5" "reads evs \<le> 3" "slept evs \<le> 200"
    using fetch_status_effect [of self] by blast
  have "new_events self = evs" by (simp add: new_events_def eq)
  with b show "opens (new_events self) \<le> 5" "reads (new_events self) \<le> 3"
    "slept (new_events self) \<le> 200" by simp_all
next
  fix d x b1 y b2 rest a
  assume "dev self = Clean d ## Clean x ## Clean b1 ## Clean y ## Clean b2 ## rest \<and>
      find_dle_eot_response (take 32 b1) = Some a \<and> a AND 0x28 \<noteq> 0"
  then have h: "dev self = Clean d ## Clean x ## Clean b1 ## Clean y ## Clean b2 ## rest"
    "find_dle_eot_response (take 32 b1) = Some a" "a AND 0x28 \<noteq> 0" by simp_all
  show "new_events self =
        [DevOpen, DevRead (take 32 d), DevClose,
         DevOpen, DevWrite [0x10, 0x04, 0x01], DevClose, Sleep 100,
         DevOpen, DevRead (take 32 b1), DevClose,
         DevOpen, DevWrite [0x10, 0x04, 0x02], DevClose, Sleep 100,
         DevOpen, DevRead (take 32 b2), DevClose]"
    by (simp add: new_events_def fetch_status_phase2 [OF h])
next
  fix d x b1 rest
  assume "dev self = Clean d ## Clean x ## Clean b1 ## rest \<and>
      (find_dle_eot_response (take 32 b1) = None \<or>
       (\<exists>a. find_dle_eot_response (take 32 b1) = Some a \<and> a AND 0x28 = 0))"
  then have d: "dev self = Clean d ## Clean x ## Clean b1 ## rest"
    and c: "find_dle_eot_response (take 32 b1) = None \<or>
       (\<exists>a. find_dle_eot_response (take 32 b1) = Some a \<and> a AND 0x28 = 0)" by simp_all
  from c show "new_events self =
        [DevOpen, DevRead (take 32 d), DevClose,
         DevOpen, DevWrite [0x10, 0x04, 0x01], DevClose, Sleep 100,
         DevOpen, DevRead (take 32 b1), DevClose]"
  proof
    assume "find_dle_eot_response (take 32 b1) = None"
    then show ?thesis by (simp add: new_events_def fetch_status_no_response [OF d])
  next
    assume "\<exists>a. find_dle_eot_response (take 32 b1) = Some a \<and> a AND 0x28 = 0"
    then obtain a where "find_dle_eot_response (take 32 b1) = Some a" "a AND 0x28 = 0" by blast
    then show ?thesis by (simp add: new_events_def fetch_status_ready [OF d])
  qed
qed

theorem fetch_status_cycles_witness:
  "opens (new_events (printer [Clean [0xFF], Clean [], Clean [0x3A], Clean [], Clean [0x16]])) \<le> 5 \<and>
   new_events (printer [Clean [0xFF], Clean [], Clean [0x3A], Clean [], Clean [0x16]]) =
     [DevOpen, DevRead [0xFF], DevClose,
      DevOpen, DevWrite [0x10, 0x04, 0x01], DevClose, Sleep 100,
      DevOpen, DevRead [0x3A], DevClose,
      DevOpen, DevWrite [0x10, 0x04, 0x02], DevClose, Sleep 100,
      DevOpen, DevRead [0x16], DevClose] \<and>
   new_events (printer [Clean [], Clean [], Clean [0x12]]) =
     [DevOpen, DevRead [], DevClose,
      DevOpen, DevWrite [0x10, 0x04, 0x01], DevClose, Sleep 100,
      DevOpen, DevRead [0x12], DevClose]"
proof -
  let ?w = "printer [Clean [0xFF], Clean [], Clean [0x3A], Clean [], Clean [0x16]]"
  let ?v = "printer [Clean [], Clean [], Clean [0x12]]"
  have dw: "dev ?w = Clean [0xFF] ## Clean [] ## Clean [0x3A] ## Clean [] ## Clean [0x16] ##
      sconst (OpenFails ''No such device'')"
    by (simp add: printer_def init_def device_def)
  have dv: "dev ?v = Clean [] ## Clean [] ## Clean [0x12] ## sconst (OpenFails ''No such device'')"
    by (simp add: printer_def init_def device_def)
  have 1: "opens (new_events ?w) \<le> 5"
    using fetch_status_cycles [of ?w] by simp
  have 2: "new_events ?w =
     [DevOpen, DevRead [0xFF], DevClose,
      DevOpen, DevWrite [0x10, 0x04, 0x01], DevClose, Sleep 100,
      DevOpen, DevRead [0x3A], DevClose,
      DevOpen, DevWrite [0x10, 0x04, 0x02], DevClose, Sleep 100,
      DevOpen, DevRead [0x16], DevClose]"
    using fetch_status_cycles [of ?w, THEN conjunct2, THEN conjunct2, THEN conjunct2,
        THEN conjunct2, THEN conjunct1, rule_format,
        of "[0xFF]" "[]" "[0x3A]" "[]" "[0x16]" _ "0x3A"] dw
    by simp
  have 3: "new_events ?v =
     [DevOpen, DevRead [], DevClose,
      DevOpen, DevWrite [0x10, 0x04, 0x01], DevClose, Sleep 100,
      DevOpen, DevRead [0x12], DevClose]"
    using fetch_status_cycles [of ?v, THEN conjunct2, THEN conjunct2, THEN conjunct2,
        THEN conjunct2, THEN conjunct2, rule_format, of "[]" "[]" "[0x12]"] dv
    by simp
  from 1 2 3 show ?thesis by simp
qed

section \<open>I/O errors in the status query\<close>

text \<open>
  Claim C7. If a cycle of phase 1 (the drain, the command write, the response read)
  fails with an I/O error at its open, its read or write, or its close, the result is
  NotConnected whatever bytes the device holds; if phase 1 succeeds and asks for phase
  2, and a cycle of phase 2 fails, the result is NotConnected too, whatever was read
  before. No call of \<open>fetch_status\<close> raises: the result is always a status.
\<close>

theorem fetch_status_io_error:
  "(\<not> clean (dev self !! 0) \<or> \<not> clean (dev self !! 1) \<or> \<not> clean (dev self !! 2) \<longrightarrow>
      fst (fetch_status self) = Inr status_not_connected) \<and>
   (\<forall>d x b1 rest a.
      dev self = Clean d ## Clean x ## Clean b1 ## rest \<and>
      find_dle_eot_response (take 32 b1) = Some a \<and> a AND 0x28 \<noteq> 0 \<and>
      (\<not> clean (rest !! 0) \<or> \<not> clean (rest !! 1)) \<longrightarrow>
      fst (fetch_status self) = Inr status_not_connected) \<and>
   (\<exists>s. fst (fetch_status self) = Inr s)"
proof (intro conjI allI impI)
  assume bad: "\<not> clean (dev self !! 0) \<or> \<not> clean (dev self !! 1) \<or> \<not> clean (dev self !! 2)"
  obtain c0 c1 c2 c3 c4 rest where d: "dev self = c0 ## c1 ## c2 ## c3 ## c4 ## rest"
    using stream_five [of "dev self"] by blast
  from bad d have "\<not> clean c0 \<or> \<not> clean c1 \<or> \<not> clean c2"
    by (simp add: eval_nat_numeral)
  then consider "\<not> clean c0" | "clean c0" "\<not> clean c1" | "clean c0" "clean c1" "\<not> clean c2"
    by blast
  then show "fst (fetch_status self) = Inr status_not_connected"
  proof cases
    case 1
    from fetch_status_fail0 [OF d 1] show ?thesis by simp
  next
    case 2
    then obtain bs where "c0 = Clean bs" by (auto simp: clean_iff)
    with d have "dev self = Clean bs ## c1 ## c2 ## c3 ## c4 ## rest" by simp
    from fetch_status_fail1 [OF this 2(2)] show ?thesis by simp
  next
    case 3
    then obtain bs cs where "c0 = Clean bs" "c1 = Clean cs" by (auto simp: clean_iff)
    with d have "dev self = Clean bs ## Clean cs ## c2 ## c3 ## c4 ## rest" by simp
    from fetch_status_fail2 [OF this 3(3)] show ?thesis by simp
  qed
next
  fix d x b1 rest a
  assume "dev self = Clean d ## Clean x ## Clean b1 ## rest \<and>
      find_dle_eot_response (take 32 b1) = Some a \<and> a AND 0x28 \<noteq> 0 \<and>
      (\<not> clean (rest !! 0) \<or> \<not> clean (rest !! 1))"
  then have d: "dev self = Clean d ## Clean x ## Clean b1 ## rest"
    and f: "find_dle_eot_response (take 32 b1) = Some a" "a AND 0x28 \<noteq> 0"
    and bad: "\<not> clean (rest !! 0) \<or> \<not> clean (rest !! 1)" by simp_all
  obtain c3 c4 rest' where r: "rest = c3 ## c4 ## rest'"
    by (metis stream.collapse)
  from bad r consider "\<not> clean c3" | "clean c3" "\<not> clean c4" by auto
  then show "fst (fetch_status self) = Inr status_not_connected"
  proof cases
    case 1
    from d r have "dev self = Clean d ## Clean x ## Clean b1 ## c3 ## c4 ## rest'" by simp
    from fetch_status_fail3 [OF this 1 f] show ?thesis by simp
  next
    case 2
    then obtain y where "c3 = Clean y" by (auto simp: clean_iff)
    with d r have "dev self = Clean d ## Clean x ## Clean b1 ## Clean y ## c4 ## rest'" by simp
    from fetch_status_fail4 [OF this 2(2) f] show ?thesis by simp
  qed
next
  show "\<exists>s. fst (fetch_status self) = Inr s" by (rule fetch_status_total)
qed

theorem fetch_status_io_error_witness:
  "fst (fetch_status (printer [Clean [0x12], OpFails ''EIO''])) = Inr status_not_connected \<and>
   fst (fetch_status (printer [Clean [], Clean [], Clean [0x3A], Clean [], CloseFails [0x16] ''EIO''])) =
     Inr status_not_connected"
proof -
  let ?w = "printer [Clean [0x12], OpFails ''EIO'']"
  let ?v = "printer [Clean [], Clean [], Clean [0x3A], Clean [], CloseFails [0x16] ''EIO'']"
  have "\<not> clean (dev ?w !! 1)"
    by (simp add: printer_def init_def device_def)
  then have 1: "fst (fetch_status ?w) = Inr status_not_connected"
    using fetch_status_io_error [of ?w, THEN conjunct1] by simp
  have dv: "dev ?v = Clean [] ## Clean [] ## Clean [0x3A] ##
      (Clean [] ## CloseFails [0x16] ''EIO'' ## sconst (OpenFails ''No such device''))"
    by (simp add: printer_def init_def device_def)
  have 2: "fst (fetch_status ?v) = Inr status_not_connected"
    using fetch_status_io_error [of ?v, THEN conjunct2, THEN conjunct1, rule_format,
        of "[]" "[]" "[0x3A]" _ "0x3A"] dv
    by simp
  from 1 2 show ?thesis by simp
qed

section \<open>The ok flag\<close>

text \<open>
  Claim C9. Each of the eight canonical statuses, and each Unrecognised status, has
  \<open>ok\<close> true exactly when it is Ready; every call of \<open>fetch_status\<close> returns a status,
  and that status has \<open>ok\<close> true exactly when it is Ready.
\<close>

theorem ok_iff_ready:
  "(\<forall>s \<in> set [status_offline, status_cover_open, status_paper_being_fed, status_oop,
               status_error, status_no_response, status_not_connected, status_ready].
      ok s = (s = status_ready)) \<and>
   (\<forall>a b. ok (unrecognised a b) = (unrecognised a b = status_ready)) \<and>
   (\<exists>s. fst (fetch_status self) = Inr s \<and> ok s = (s = status_ready))"
proof (intro conjI)
  show "\<forall>s \<in> set [status_offline, status_cover_open, status_paper_being_fed, status_oop,
               status_error, status_no_response, status_not_connected, status_ready].
      ok s = (s = status_ready)"
    by (simp add: status_offline_def status_cover_open_def status_paper_being_fed_def
        status_oop_def status_error_def status_no_response_def status_not_connected_def
        status_ready_def status_message_def)
  show u: "\<forall>a b. ok (unrecognised a b) = (unrecognised a b = status_ready)"
    by (simp add: unrecognised_def status_ready_def status_message_def)
  obtain st d' evs where eq: "fetch_status self = (Inr st, self\<lparr>dev := d', trace := trace self @ evs\<rparr>)"
    and st: "st \<in> {status_not_connected, status_no_response, status_ready, status_error,
             status_cover_open, status_paper_being_fed, status_oop} \<or>
      (\<exists>a b. st = unrecognised a b)"
    using fetch_status_effect [of self] by blast
  from st have "ok st = (st = status_ready)"
  proof
    assume "st \<in> {status_not_connected, status_no_response, status_ready, status_error,
             status_cover_open, status_paper_being_fed, status_oop}"
    then show ?thesis
      by (auto simp: status_cover_open_def status_paper_being_fed_def
        status_oop_def status_error_def status_no_response_def status_not_connected_def
        status_ready_def status_message_def)
  next
    assume "\<exists>a b. st = unrecognised a b"
    with u show ?thesis by auto
  qed
  with eq show "\<exists>s. fst (fetch_status self) = Inr s \<and> ok s = (s = status_ready)" by simp
qed

theorem ok_iff_ready_witness:
  "ok status_ready \<and> \<not> ok status_offline \<and> status_offline \<noteq> status_ready"
  using ok_iff_ready [of "printer []", THEN conjunct1]
  by (simp add: status_offline_def status_ready_def status_message_def)

section \<open>The final statement of the status query\<close>

text \<open>
  Claim C10. When the \<open>try\<close> block of \<open>fetch_status\<close> falls through to the final
  statement, \<open>n1\<close> is bound to a byte that passed the mask test and has a bit of 0x28
  set, and \<open>n2\<close> is bound to a byte that passed the mask test and has none of 0x04,
  0x08, 0x20, 0x40 set; the final statement then builds the Unrecognised status from
  them and raises nothing. No call of \<open>fetch_status\<close> raises \<open>UnboundLocalError\<close>, and a
  call whose phase 1 accepts a byte with 0x28 clear leaves the \<open>try\<close> block by
  returning Ready, not by falling through.
\<close>

theorem fallback_has_both_bytes:
  "(\<forall>u. fst (fetch_try (enter self)) = Val u \<longrightarrow>
      (\<exists>a b. n1 (snd (fetch_try (enter self))) = Some (Some a) \<and>
             n2 (snd (fetch_try (enter self))) = Some (Some b) \<and>
             a AND 0x93 = 0x12 \<and> a AND 0x28 \<noteq> 0 \<and> b AND 0x93 = 0x12 \<and>
             b AND 0x04 = 0 \<and> b AND 0x08 = 0 \<and> b AND 0x20 = 0 \<and> b AND 0x40 = 0 \<and>
             fallback (snd (fetch_try (enter self))) = Inr (unrecognised (Some a) (Some b)) \<and>
             fst (fetch_status self) = Inr (unrecognised (Some a) (Some b)))) \<and>
   (\<forall>v. fst (fetch_status self) \<noteq> Inl (UnboundLocalError v)) \<and>
   (\<forall>d x b1 rest a.
      dev self = Clean d ## Clean x ## Clean b1 ## rest \<and>
      find_dle_eot_response (take 32 b1) = Some a \<and> a AND 0x28 = 0 \<longrightarrow>
      fst (fetch_try (enter self)) = Return status_ready)"
proof (intro conjI allI impI)
  fix u
  assume v: "fst (fetch_try (enter self)) = Val u"
  obtain r fr where p: "fetch_try (enter self) = (r, fr)" by (cases "fetch_try (enter self)")
  with v have r: "r = Val u" by simp
  from fetch_try_outcome [of self] p r obtain a b where
    ab: "n1 fr = Some (Some a)" "n2 fr = Some (Some b)"
      "a AND 0x93 = 0x12" "a AND 0x28 \<noteq> 0" "b AND 0x93 = 0x12"
      "b AND 0x04 = 0" "b AND 0x08 = 0" "b AND 0x20 = 0" "b AND 0x40 = 0"
    by auto
  have fb: "fallback fr = Inr (unrecognised (Some a) (Some b))"
    by (simp add: fallback_def ab)
  have "fst (fetch_status self) = Inr (unrecognised (Some a) (Some b))"
    by (simp add: fetch_status_def p r fb)
  with ab fb p show "\<exists>a b. n1 (snd (fetch_try (enter self))) = Some (Some a) \<and>
             n2 (snd (fetch_try (enter self))) = Some (Some b) \<and>
             a AND 0x93 = 0x12 \<and> a AND 0x28 \<noteq> 0 \<and> b AND 0x93 = 0x12 \<and>
             b AND 0x04 = 0 \<and> b AND 0x08 = 0 \<and> b AND 0x20 = 0 \<and> b AND 0x40 = 0 \<and>
             fallback (snd (fetch_try (enter self))) = Inr (unrecognised (Some a) (Some b)) \<and>
             fst (fetch_status self) = Inr (unrecognised (Some a) (Some b))"
    by auto
next
  fix v
  show "fst (fetch_status self) \<noteq> Inl (UnboundLocalError v)"
    using fetch_status_total [of self] by auto
next
  fix d x b1 rest a
  assume "dev self = Clean d ## Clean x ## Clean b1 ## rest \<and>
      find_dle_eot_response (take 32 b1) = Some a \<and> a AND 0x28 = 0"
  then show "fst (fetch_try (enter self)) = Return status_ready"
    by (simp add: fetch_try_def seq_def with_open_def f_read_def f_write_def sleep_def
        emit_def phase1_def enter_def rp.defs Let_def)
qed

theorem fallback_has_both_bytes_witness:
  "fst (fetch_try (enter (printer [Clean [], Clean [], Clean [0x3A], Clean [], Clean [0x12]]))) = Val () \<and>
   (\<exists>a b. n1 (snd (fetch_try (enter (printer [Clean [], Clean [], Clean [0x3A], Clean [], Clean [0x12]]))))
            = Some (Some a) \<and>
          n2 (snd (fetch_try (enter (printer [Clean [], Clean [], Clean [0x3A], Clean [], Clean [0x12]]))))
            = Some (Some b) \<and> a AND 0x28 \<noteq> 0 \<and> b AND 0x04 = 0)"
proof -
  let ?w = "printer [Clean [], Clean [], Clean [0x3A], Clean [], Clean [0x12]]"
  have v: "fst (fetch_try (enter ?w)) = Val ()"
    by (simp add: printer_def init_def device_def fetch_try_def seq_def with_open_def
        f_read_def f_write_def sleep_def emit_def phase1_def phase2_def enter_def rp.defs Let_def)
  from fallback_has_both_bytes [of ?w, THEN conjunct1, rule_format, OF v] v
  show ?thesis by blast
qed

section \<open>Publishing status changes\<close>

text \<open>
  Claim C8. Let \<open>new\<close> be the status that \<open>check_printer_status\<close> fetches. If it differs
  from the stored current status (both fields compared), exactly one message, retained
  and carrying \<open>new\<close>, is published on the status topic after the events of the fetch,
  and the stored status becomes \<open>new\<close>; if it is equal, nothing is published and
  nothing is stored. Either way the stored status is \<open>new\<close> afterwards, so a second call
  that fetches the same status again adds nothing but the events of its own fetch.
\<close>

theorem check_printer_status_on_change:
  assumes "fetch_status self = (Inr new, s)"
  shows
    "(new \<noteq> current_status self \<longrightarrow>
        check_printer_status self =
          (Inr (), s\<lparr>current_status := new,
                     trace := trace s @ [Publish (status_topic self) (StatusPayload new) True]\<rparr>)) \<and>
     (new = current_status self \<longrightarrow> check_printer_status self = (Inr (), s)) \<and>
     current_status (snd (check_printer_status self)) = new \<and>
     (\<forall>s'. fetch_status (snd (check_printer_status self)) = (Inr new, s') \<longrightarrow>
        check_printer_status (snd (check_printer_status self)) = (Inr (), s'))"
proof -
  from assms have s: "s = snd (fetch_status self)" by simp
  have cur: "current_status s = current_status self" and top: "status_topic s = status_topic self"
    using fetch_status_frame [of self] by (simp_all add: s)
  have 1: "new \<noteq> current_status self \<Longrightarrow>
        check_printer_status self =
          (Inr (), s\<lparr>current_status := new,
                     trace := trace s @ [Publish (status_topic self) (StatusPayload new) True]\<rparr>)"
    by (simp add: check_printer_status_def assms cur top emit_def)
  have 2: "new = current_status self \<Longrightarrow> check_printer_status self = (Inr (), s)"
    by (simp add: check_printer_status_def assms cur)
  have 3: "current_status (snd (check_printer_status self)) = new"
    using 1 2 cur by (cases "new = current_status self") simp_all
  have 4: "check_printer_status (snd (check_printer_status self)) = (Inr (), s')"
    if f: "fetch_status (snd (check_printer_status self)) = (Inr new, s')" for s'
  proof -
    have "current_status s' = current_status (snd (check_printer_status self))"
      using fetch_status_frame [of "snd (check_printer_status self)"] f by simp
    with 3 have "new = current_status s'" by simp
    then show ?thesis by (simp add: check_printer_status_def [of "snd (check_printer_status self)"] f)
  qed
  from 1 2 3 4 show ?thesis by blast
qed

theorem check_printer_status_on_change_witness:
  "check_printer_status (printer [Clean [], Clean [], Clean [0x12]]) =
     (Inr (), (printer [])\<lparr>current_status := status_ready,
        trace := [DevOpen, DevRead [], DevClose,
                  DevOpen, DevWrite [0x10, 0x04, 0x01], DevClose, Sleep 100,
                  DevOpen, DevRead [0x12], DevClose,
                  Publish ''status'' (StatusPayload status_ready) True]\<rparr>) \<and>
   check_printer_status ((printer [])\<lparr>current_status := status_not_connected\<rparr>) =
     (Inr (), (printer [])\<lparr>current_status := status_not_connected\<rparr>)"
proof -
  let ?w = "printer [Clean [], Clean [], Clean [0x12]]"
  let ?s = "(printer [])\<lparr>trace := [DevOpen, DevRead [], DevClose,
                  DevOpen, DevWrite [0x10, 0x04, 0x01], DevClose, Sleep 100,
                  DevOpen, DevRead [0x12], DevClose]\<rparr>"
  have f: "fetch_status ?w = (Inr status_ready, ?s)"
    by (simp add: printer_def init_def device_def fs_defs)
  have ne: "status_ready \<noteq> current_status ?w"
    by (simp add: printer_def init_def status_ready_def status_offline_def status_message_def)
  have 1: "check_printer_status ?w =
     (Inr (), (printer [])\<lparr>current_status := status_ready,
        trace := [DevOpen, DevRead [], DevClose,
                  DevOpen, DevWrite [0x10, 0x04, 0x01], DevClose, Sleep 100,
                  DevOpen, DevRead [0x12], DevClose,
                  Publish ''status'' (StatusPayload status_ready) True]\<rparr>)"
    using check_printer_status_on_change [OF f, THEN conjunct1] ne
    by (simp add: printer_def init_def)
  let ?v = "(printer [])\<lparr>current_status := status_not_connected\<rparr>"
  have g: "fetch_status ?v = (Inr status_not_connected, ?v)"
    by (simp add: printer_def init_def device_def fs_defs)
  have 2: "check_printer_status ?v = (Inr (), ?v)"
    using check_printer_status_on_change [OF g, THEN conjunct2, THEN conjunct1] by simp
  from 1 2 show ?thesis by simp
qed

section \<open>Printing queued jobs\<close>

lemma run_print_queue: "print_queue (snd (run_print self)) = tl (print_queue self)"
proof (cases "print_queue self")
  case Nil
  then show ?thesis by (simp add: run_print_def)
next
  case (Cons job rest)
  obtain j data where job: "job = (j, data)" by (cases job)
  obtain st d' evs where
    eq: "fetch_status (self\<lparr>print_queue := rest\<rparr>) =
      (Inr st, self\<lparr>print_queue := rest, dev := d', trace := trace self @ evs\<rparr>)"
    using fetch_status_effect [of "self\<lparr>print_queue := rest\<rparr>"] by auto
  show ?thesis
    by (cases "shd d'")
      (simp_all add: run_print_def Cons job eq send_print_status_def emit_def with_open_def
        seq_def f_write_def Let_def)
qed

lemma run_print_returns: "fst (run_print self) = Inr ()"
proof (cases "print_queue self")
  case Nil
  then show ?thesis by (simp add: run_print_def)
next
  case (Cons job rest)
  obtain j data where job: "job = (j, data)" by (cases job)
  obtain st d' evs where
    eq: "fetch_status (self\<lparr>print_queue := rest\<rparr>) =
      (Inr st, self\<lparr>print_queue := rest, dev := d', trace := trace self @ evs\<rparr>)"
    using fetch_status_effect [of "self\<lparr>print_queue := rest\<rparr>"] by auto
  show ?thesis
    by (cases "shd d'")
      (simp_all add: run_print_def Cons job eq send_print_status_def emit_def with_open_def
        seq_def f_write_def Let_def)
qed

lemma run_print_quiet:
  "\<exists>evs. trace (snd (run_print self)) = trace self @ evs \<and> Watchdog \<notin> set evs"
proof (cases "print_queue self")
  case Nil
  then show ?thesis by (simp add: run_print_def)
next
  case (Cons job rest)
  obtain j data where job: "job = (j, data)" by (cases job)
  obtain st d' evs where
    eq: "fetch_status (self\<lparr>print_queue := rest\<rparr>) =
      (Inr st, self\<lparr>print_queue := rest, dev := d', trace := trace self @ evs\<rparr>)"
    and q: "Watchdog \<notin> set evs"
    using fetch_status_effect [of "self\<lparr>print_queue := rest\<rparr>"] by auto
  show ?thesis
    using q
    by (cases "shd d'")
      (simp_all add: run_print_def Cons job eq send_print_status_def emit_def with_open_def
        seq_def f_write_def Let_def)
qed

lemma run_print_iterate:
  "print_queue (((\<lambda>s. snd (run_print s)) ^^ k) self) = drop k (print_queue self)"
proof (induction k)
  case 0
  show ?case by simp
next
  case (Suc k)
  have "print_queue (((\<lambda>s. snd (run_print s)) ^^ Suc k) self) =
      tl (print_queue (((\<lambda>s. snd (run_print s)) ^^ k) self))"
    by (simp add: run_print_queue)
  also have "\<dots> = drop (Suc k) (print_queue self)"
    by (simp add: Suc.IH drop_Suc tl_drop)
  finally show ?case .
qed

text \<open>
  An iteration of \<open>run\<close> signals the watchdog, runs the queue block, then the reconnect
  loop, then the poll block.
\<close>

lemma run_body_unfold:
  "run_body L d self =
     (case run_reconnect (snd (run_print (emit [Watchdog] self))) of
        None \<Rightarrow> None
      | Some (Inl e, s2) \<Rightarrow> Some (Inl e, s2)
      | Some (Inr u, s2) \<Rightarrow> Some (run_poll L d s2))"
proof -
  obtain r s1 where p: "run_print (emit [Watchdog] self) = (r, s1)"
    by (cases "run_print (emit [Watchdog] self)")
  with run_print_returns [of "emit [Watchdog] self"] have "r = Inr ()" by simp
  with p show ?thesis by (simp add: run_body_def)
qed

text \<open>
  The queue block in general. It does nothing on an empty queue and always returns
  normally. On a non-empty queue it removes the head job and no other (so \<open>k\<close> runs of
  it consume the first \<open>k\<close> jobs, in queue order), calls \<open>fetch_status\<close>, and then: if the
  status is not ok, publishes one failure result whose message is the status text and
  touches the device no further; if the status is ok and the device cycle succeeds,
  writes the payload and publishes one success result; if the open or the write raises,
  publishes one failure result that contains the error; if the close raises, publishes
  the success result and then a failure result that contains the error.
\<close>

theorem run_print_job:
  "(print_queue self = [] \<longrightarrow> run_print self = (Inr (), self)) \<and>
   fst (run_print self) = Inr () \<and>
   print_queue (snd (run_print self)) = tl (print_queue self) \<and>
   (\<forall>k. print_queue (((\<lambda>s. snd (run_print s)) ^^ k) self) = drop k (print_queue self)) \<and>
   (\<forall>j data rest st s.
      print_queue self = (j, data) # rest \<and>
      fetch_status (self\<lparr>print_queue := rest\<rparr>) = (Inr st, s) \<longrightarrow>
      (\<not> ok st \<longrightarrow>
         run_print self =
           (Inr (), s\<lparr>trace := trace s @
              [Publish (printed_topic self)
                 (PrintedPayload \<lparr>jobid = j, message = status st, finished = True, success = False\<rparr>)
                 False]\<rparr>)) \<and>
      (ok st \<longrightarrow>
         (\<forall>bs rest'. dev s = Clean bs ## rest' \<longrightarrow>
            run_print self =
              (Inr (), s\<lparr>dev := rest', trace := trace s @
                 [DevOpen, DevWrite data,
                  Publish (printed_topic self)
                    (PrintedPayload \<lparr>jobid = j, message = ''Printed'', finished = True, success = True\<rparr>)
                    False,
                  DevClose]\<rparr>)) \<and>
         (\<forall>e rest'. dev s = OpenFails e ## rest' \<longrightarrow>
            run_print self =
              (Inr (), s\<lparr>dev := rest', trace := trace s @
                 [Publish (printed_topic self)
                    (PrintedPayload \<lparr>jobid = j, message = ''Print failed: e='' @ e,
                       finished = True, success = False\<rparr>)
                    False]\<rparr>)) \<and>
         (\<forall>e rest'. dev s = OpFails e ## rest' \<longrightarrow>
            run_print self =
              (Inr (), s\<lparr>dev := rest', trace := trace s @
                 [DevOpen, DevClose,
                  Publish (printed_topic self)
                    (PrintedPayload \<lparr>jobid = j, message = ''Print failed: e='' @ e,
                       finished = True, success = False\<rparr>)
                    False]\<rparr>)) \<and>
         (\<forall>bs e rest'. dev s = CloseFails bs e ## rest' \<longrightarrow>
            run_print self =
              (Inr (), s\<lparr>dev := rest', trace := trace s @
                 [DevOpen, DevWrite data,
                  Publish (printed_topic self)
                    (PrintedPayload \<lparr>jobid = j, message = ''Printed'', finished = True, success = True\<rparr>)
                    False,
                  DevClose,
                  Publish (printed_topic self)
                    (PrintedPayload \<lparr>jobid = j, message = ''Print failed: e='' @ e,
                       finished = True, success = False\<rparr>)
                    False]\<rparr>))))"
proof (intro conjI allI impI)
  assume "print_queue self = []"
  then show "run_print self = (Inr (), self)" by (simp add: run_print_def)
next
  show "fst (run_print self) = Inr ()"
    by (rule run_print_returns)
next
  show "print_queue (snd (run_print self)) = tl (print_queue self)"
    by (rule run_print_queue)
next
  fix k
  show "print_queue (((\<lambda>s. snd (run_print s)) ^^ k) self) = drop k (print_queue self)"
    by (rule run_print_iterate)
next
  fix j data rest st s
  assume "print_queue self = (j, data) # rest \<and>
      fetch_status (self\<lparr>print_queue := rest\<rparr>) = (Inr st, s)"
  then have q: "print_queue self = (j, data) # rest"
    and f: "fetch_status (self\<lparr>print_queue := rest\<rparr>) = (Inr st, s)" by simp_all
  have top: "printed_topic s = printed_topic self"
    using fetch_status_frame [of "self\<lparr>print_queue := rest\<rparr>"] f by simp
  note defs = run_print_def q f top send_print_status_def emit_def with_open_def seq_def
    f_write_def Let_def
  {
    assume "\<not> ok st"
    then show "run_print self =
           (Inr (), s\<lparr>trace := trace s @
              [Publish (printed_topic self)
                 (PrintedPayload \<lparr>jobid = j, message = status st, finished = True, success = False\<rparr>)
                 False]\<rparr>)"
      by (simp add: defs)
  }
  assume ok: "ok st"
  {
    fix bs rest'
    assume "dev s = Clean bs ## rest'"
    with ok show "run_print self =
              (Inr (), s\<lparr>dev := rest', trace := trace s @
                 [DevOpen, DevWrite data,
                  Publish (printed_topic self)
                    (PrintedPayload \<lparr>jobid = j, message = ''Printed'', finished = True, success = True\<rparr>)
                    False,
                  DevClose]\<rparr>)"
      by (simp add: defs)
  }
  {
    fix e rest'
    assume "dev s = OpenFails e ## rest'"
    with ok show "run_print self =
              (Inr (), s\<lparr>dev := rest', trace := trace s @
                 [Publish (printed_topic self)
                    (PrintedPayload \<lparr>jobid = j, message = ''Print failed: e='' @ e,
                       finished = True, success = False\<rparr>)
                    False]\<rparr>)"
      by (simp add: defs)
  }
  {
    fix e rest'
    assume "dev s = OpFails e ## rest'"
    with ok show "run_print self =
              (Inr (), s\<lparr>dev := rest', trace := trace s @
                 [DevOpen, DevClose,
                  Publish (printed_topic self)
                    (PrintedPayload \<lparr>jobid = j, message = ''Print failed: e='' @ e,
                       finished = True, success = False\<rparr>)
                    False]\<rparr>)"
      by (simp add: defs)
  }
  {
    fix bs e rest'
    assume "dev s = CloseFails bs e ## rest'"
    with ok show "run_print self =
              (Inr (), s\<lparr>dev := rest', trace := trace s @
                 [DevOpen, DevWrite data,
                  Publish (printed_topic self)
                    (PrintedPayload \<lparr>jobid = j, message = ''Printed'', finished = True, success = True\<rparr>)
                    False,
                  DevClose,
                  Publish (printed_topic self)
                    (PrintedPayload \<lparr>jobid = j, message = ''Print failed: e='' @ e,
                       finished = True, success = False\<rparr>)
                    False]\<rparr>)"
      by (simp add: defs)
  }
qed

theorem run_print_job_witness:
  "run_print ((printer [Clean [], Clean [], Clean [0x12], Clean []])
       \<lparr>print_queue := [(''7'', [0x68, 0x69]), (''8'', [])]\<rparr>) =
     (Inr (), (printer [])\<lparr>print_queue := [(''8'', [])],
        trace := [DevOpen, DevRead [], DevClose,
                  DevOpen, DevWrite [0x10, 0x04, 0x01], DevClose, Sleep 100,
                  DevOpen, DevRead [0x12], DevClose,
                  DevOpen, DevWrite [0x68, 0x69],
                  Publish ''printed''
                    (PrintedPayload \<lparr>jobid = ''7'', message = ''Printed'', finished = True, success = True\<rparr>)
                    False,
                  DevClose]\<rparr>) \<and>
   run_print ((printer [])\<lparr>print_queue := [(''7'', [0x68, 0x69])]\<rparr>) =
     (Inr (), (printer [])\<lparr>trace :=
        [Publish ''printed''
           (PrintedPayload \<lparr>jobid = ''7'', message = ''Printer not connected'',
              finished = True, success = False\<rparr>)
           False]\<rparr>)"
proof -
  let ?w = "(printer [Clean [], Clean [], Clean [0x12], Clean []])
       \<lparr>print_queue := [(''7'', [0x68, 0x69]), (''8'', [])]\<rparr>"
  let ?s = "(printer [Clean []])\<lparr>print_queue := [(''8'', [])],
        trace := [DevOpen, DevRead [], DevClose,
                  DevOpen, DevWrite [0x10, 0x04, 0x01], DevClose, Sleep 100,
                  DevOpen, DevRead [0x12], DevClose]\<rparr>"
  have q: "print_queue ?w = (''7'', [0x68, 0x69]) # [(''8'', [])]" by simp
  have f: "fetch_status (?w\<lparr>print_queue := [(''8'', [])]\<rparr>) = (Inr status_ready, ?s)"
    by (simp add: printer_def init_def device_def fs_defs)
  have d: "dev ?s = Clean [] ## device []"
    by (simp add: printer_def init_def device_def)
  have 1: "run_print ?w =
     (Inr (), (printer [])\<lparr>print_queue := [(''8'', [])],
        trace := [DevOpen, DevRead [], DevClose,
                  DevOpen, DevWrite [0x10, 0x04, 0x01], DevClose, Sleep 100,
                  DevOpen, DevRead [0x12], DevClose,
                  DevOpen, DevWrite [0x68, 0x69],
                  Publish ''printed''
                    (PrintedPayload \<lparr>jobid = ''7'', message = ''Printed'', finished = True, success = True\<rparr>)
                    False,
                  DevClose]\<rparr>)"
    using run_print_job [of ?w, THEN conjunct2, THEN conjunct2, THEN conjunct2, THEN conjunct2,
        rule_format,
        OF conjI [OF q f], THEN conjunct2, rule_format, THEN conjunct1, rule_format, OF _ d]
    by (simp add: status_ready_def status_message_def printer_def init_def device_def)
  let ?v = "(printer [])\<lparr>print_queue := [(''7'', [0x68, 0x69])]\<rparr>"
  have q2: "print_queue ?v = (''7'', [0x68, 0x69]) # []" by simp
  have f2: "fetch_status (?v\<lparr>print_queue := []\<rparr>) = (Inr status_not_connected, printer [])"
    by (simp add: printer_def init_def device_def fs_defs)
  have 2: "run_print ?v =
     (Inr (), (printer [])\<lparr>trace :=
        [Publish ''printed''
           (PrintedPayload \<lparr>jobid = ''7'', message = ''Printer not connected'',
              finished = True, success = False\<rparr>)
           False]\<rparr>)"
    using run_print_job [of ?v, THEN conjunct2, THEN conjunct2, THEN conjunct2, THEN conjunct2,
        rule_format,
        OF conjI [OF q2 f2], THEN conjunct1]
    by (simp add: status_not_connected_def status_message_def printer_def init_def)
  from 1 2 show ?thesis by simp
qed

text \<open>
  Claim C2 says that a job whose write raises gets a failure result, one outcome per
  job. The code does not keep to it when the error comes at the close of the device,
  which is where a buffered write reaches it: the success result is published inside
  the \<open>with\<close> block, before the close, and the failure result follows. One iteration of
  \<open>run\<close> on a connected printer, a ready device whose fourth cycle fails at the close,
  and one queued job publishes \<open>Printed\<close> with success true and then \<open>Print failed\<close> with
  success false for the same job; the job is consumed once.
\<close>

theorem run_body_close_error:
  "run_body deaf 10
     ((printer [Clean [], Clean [], Clean [0x12], CloseFails [] ''OSError(5)''])
        \<lparr>connected := True, print_queue := [(''7'', [0x68, 0x69])]\<rparr>) =
   Some (Inr 10,
     (printer [])
       \<lparr>connected := True,
        trace :=
          [Watchdog,
           DevOpen, DevRead [], DevClose,
           DevOpen, DevWrite [0x10, 0x04, 0x01], DevClose, Sleep 100,
           DevOpen, DevRead [0x12], DevClose,
           DevOpen, DevWrite [0x68, 0x69],
           Publish ''printed''
             (PrintedPayload \<lparr>jobid = ''7'', message = ''Printed'', finished = True, success = True\<rparr>)
             False,
           DevClose,
           Publish ''printed''
             (PrintedPayload \<lparr>jobid = ''7'', message = ''Print failed: e=OSError(5)'',
                finished = True, success = False\<rparr>)
             False,
           MqttLoop 10]\<rparr>)"
  by (simp add: run_body_def deaf_def printer_def init_def device_def emit_def run_print_def
      run_reconnect.simps run_poll_def fs_defs loop_def send_print_status_def
      status_ready_def status_message_def)

section \<open>Inbound print requests\<close>

text \<open>
  Claim C6, as stated, fails. The payload 0xFF is not valid JSON, yet it is not ignored:
  \<open>json.loads\<close> raises \<open>UnicodeDecodeError\<close>, which the handler does not catch, so the
  exception leaves the handler. The request \<open>{"jobid": 7, "data": "!!!!"}\<close> has data that
  is not valid base64, yet no failure result is published: \<open>b64decode\<close> returns the empty
  byte string and the job is queued.
\<close>

theorem on_print_message_counterexample:
  "on_print_message cpython_sample [0xFF] (printer []) =
     (Inl (UnicodeDecodeError ''UnicodeDecodeError''), printer []) \<and>
   on_print_message cpython_sample noisy_request (printer []) =
     (Inr (), (printer [])\<lparr>print_queue := [(''7'', [])]\<rparr>) \<and>
   trace (snd (on_print_message cpython_sample noisy_request (printer []))) = []"
  by (simp add: on_print_message_def cpython_sample_def noisy_request_def printer_def init_def)

text \<open>
  Claim C6, amended. A payload on which \<open>json.loads\<close> raises \<open>JSONDecodeError\<close> changes
  nothing (no publish, same queue) and the handler returns normally; whatever
  \<open>json.loads\<close> raises, nothing is published and the queue stays as it is. A JSON object
  without the key \<open>jobid\<close> changes nothing either. An object with \<open>jobid\<close> and without
  \<open>data\<close> publishes exactly one result on the printed topic, finished and not
  successful, with message \<open>Aborted: missing data\<close>, and leaves the queue as it is; an
  object whose \<open>data\<close> makes \<open>b64decode\<close> raise publishes exactly one such result whose
  message contains the error, and leaves the queue as it is; otherwise, that is
  whenever \<open>b64decode\<close> returns bytes, the pair of \<open>str(jobid)\<close> and these bytes is
  appended at the tail of the queue and nothing is published.
\<close>

theorem on_print_message_cases:
  "((\<forall>req. json_loads L payload \<noteq> Loaded req) \<longrightarrow>
      snd (on_print_message L payload self) = self) \<and>
   (json_loads L payload = JSONDecodeError \<longrightarrow>
      on_print_message L payload self = (Inr (), self)) \<and>
   (\<forall>kv. json_loads L payload = Loaded (JObj kv) \<and> map_of kv ''jobid'' = None \<longrightarrow>
      on_print_message L payload self = (Inr (), self)) \<and>
   (\<forall>kv j. json_loads L payload = Loaded (JObj kv) \<and> map_of kv ''jobid'' = Some j \<longrightarrow>
      (map_of kv ''data'' = None \<longrightarrow>
         on_print_message L payload self =
           (Inr (), self\<lparr>trace := trace self @
              [Publish (printed_topic self)
                 (PrintedPayload \<lparr>jobid = py_str L j, message = ''Aborted: missing data'',
                    finished = True, success = False\<rparr>)
                 False]\<rparr>)) \<and>
      (\<forall>d e. map_of kv ''data'' = Some d \<and> b64decode L d = Inl e \<longrightarrow>
         on_print_message L payload self =
           (Inr (), self\<lparr>trace := trace self @
              [Publish (printed_topic self)
                 (PrintedPayload \<lparr>jobid = py_str L j, message = ''Error decoding data: e='' @ e,
                    finished = True, success = False\<rparr>)
                 False]\<rparr>)) \<and>
      (\<forall>d bs. map_of kv ''data'' = Some d \<and> b64decode L d = Inr bs \<longrightarrow>
         on_print_message L payload self =
           (Inr (), self\<lparr>print_queue := print_queue self @ [(py_str L j, bs)]\<rparr>)))"
proof (intro conjI allI impI)
  assume "\<forall>req. json_loads L payload \<noteq> Loaded req"
  then show "snd (on_print_message L payload self) = self"
    by (cases "json_loads L payload") (simp_all add: on_print_message_def)
next
  assume "json_loads L payload = JSONDecodeError"
  then show "on_print_message L payload self = (Inr (), self)"
    by (simp add: on_print_message_def)
next
  fix kv
  assume "json_loads L payload = Loaded (JObj kv) \<and> map_of kv ''jobid'' = None"
  then have l: "json_loads L payload = Loaded (JObj kv)" and "map_of kv ''jobid'' = None"
    by simp_all
  then have "''jobid'' \<notin> fst ` set kv" by (simp add: map_of_eq_None_iff)
  with l show "on_print_message L payload self = (Inr (), self)"
    by (simp add: on_print_message_def)
next
  fix kv j
  assume "json_loads L payload = Loaded (JObj kv) \<and> map_of kv ''jobid'' = Some j"
  then have l: "json_loads L payload = Loaded (JObj kv)" and j: "map_of kv ''jobid'' = Some j"
    by simp_all
  from j have inj: "''jobid'' \<in> fst ` set kv"
    by (metis map_of_eq_None_iff option.distinct(1))
  note defs = on_print_message_def l j inj send_print_status_def emit_def
  {
    assume "map_of kv ''data'' = None"
    then have "''data'' \<notin> fst ` set kv" by (simp add: map_of_eq_None_iff)
    then show "on_print_message L payload self =
           (Inr (), self\<lparr>trace := trace self @
              [Publish (printed_topic self)
                 (PrintedPayload \<lparr>jobid = py_str L j, message = ''Aborted: missing data'',
                    finished = True, success = False\<rparr>)
                 False]\<rparr>)"
      by (simp add: defs)
  }
  {
    fix d e
    assume "map_of kv ''data'' = Some d \<and> b64decode L d = Inl e"
    then have d: "map_of kv ''data'' = Some d" and e: "b64decode L d = Inl e" by simp_all
    from d have "''data'' \<in> fst ` set kv"
      by (metis map_of_eq_None_iff option.distinct(1))
    with d e show "on_print_message L payload self =
           (Inr (), self\<lparr>trace := trace self @
              [Publish (printed_topic self)
                 (PrintedPayload \<lparr>jobid = py_str L j, message = ''Error decoding data: e='' @ e,
                    finished = True, success = False\<rparr>)
                 False]\<rparr>)"
      by (simp add: defs)
  }
  {
    fix d bs
    assume "map_of kv ''data'' = Some d \<and> b64decode L d = Inr bs"
    then have d: "map_of kv ''data'' = Some d" and e: "b64decode L d = Inr bs" by simp_all
    from d have "''data'' \<in> fst ` set kv"
      by (metis map_of_eq_None_iff option.distinct(1))
    with d e show "on_print_message L payload self =
           (Inr (), self\<lparr>print_queue := print_queue self @ [(py_str L j, bs)]\<rparr>)"
      by (simp add: defs)
  }
qed

theorem on_print_message_cases_witness:
  "on_print_message
     \<lparr>json_loads = (\<lambda>p. Loaded (JObj [(''jobid'', JNum (7::int)), (''data'', JStr ''aGk='')])),
      py_str = (\<lambda>j. ''7''), b64decode = (\<lambda>d. Inr [0x68, 0x69])\<rparr>
     [] (printer []) =
     (Inr (), (printer [])\<lparr>print_queue := [(''7'', [0x68, 0x69])]\<rparr>) \<and>
   on_print_message
     \<lparr>json_loads = (\<lambda>p. Loaded (JObj [(''jobid'', JNum (7::int))])),
      py_str = (\<lambda>j. ''7''), b64decode = (\<lambda>d. Inr [])\<rparr>
     [] (printer []) =
     (Inr (), (printer [])\<lparr>trace :=
        [Publish ''printed''
           (PrintedPayload \<lparr>jobid = ''7'', message = ''Aborted: missing data'',
              finished = True, success = False\<rparr>)
           False]\<rparr>) \<and>
   on_print_message
     \<lparr>json_loads = (\<lambda>p. JSONDecodeError :: int loads),
      py_str = (\<lambda>j. ''7''), b64decode = (\<lambda>d. Inr [])\<rparr>
     [0x7B] (printer []) = (Inr (), printer [])"
proof -
  let ?L1 = "\<lparr>json_loads = (\<lambda>p. Loaded (JObj [(''jobid'', JNum (7::int)), (''data'', JStr ''aGk='')])),
      py_str = (\<lambda>j. ''7''), b64decode = (\<lambda>d. Inr [0x68, 0x69])\<rparr>"
  let ?L2 = "\<lparr>json_loads = (\<lambda>p. Loaded (JObj [(''jobid'', JNum (7::int))])),
      py_str = (\<lambda>j. ''7''), b64decode = (\<lambda>d. Inr [])\<rparr>"
  let ?L3 = "\<lparr>json_loads = (\<lambda>p. JSONDecodeError :: int loads),
      py_str = (\<lambda>j. ''7''), b64decode = (\<lambda>d. Inr [])\<rparr>"
  have 1: "on_print_message ?L1 [] (printer []) =
     (Inr (), (printer [])\<lparr>print_queue := [(''7'', [0x68, 0x69])]\<rparr>)"
    using on_print_message_cases [of ?L1 "[]" "printer []", THEN conjunct2, THEN conjunct2,
        THEN conjunct2, rule_format, of "[(''jobid'', JNum 7), (''data'', JStr ''aGk='')]" "JNum 7",
        THEN conjunct2, THEN conjunct2, rule_format, of "JStr ''aGk=''" "[0x68, 0x69]"]
    by (simp add: printer_def init_def)
  have 2: "on_print_message ?L2 [] (printer []) =
     (Inr (), (printer [])\<lparr>trace :=
        [Publish ''printed''
           (PrintedPayload \<lparr>jobid = ''7'', message = ''Aborted: missing data'',
              finished = True, success = False\<rparr>)
           False]\<rparr>)"
    using on_print_message_cases [of ?L2 "[]" "printer []", THEN conjunct2, THEN conjunct2,
        THEN conjunct2, rule_format, of "[(''jobid'', JNum 7)]" "JNum 7", THEN conjunct1]
    by (simp add: printer_def init_def)
  have 3: "on_print_message ?L3 [0x7B] (printer []) = (Inr (), printer [])"
    using on_print_message_cases [of ?L3 "[0x7B]" "printer []", THEN conjunct2, THEN conjunct1]
    by simp
  from 1 2 3 show ?thesis by simp
qed

section \<open>Reconnection\<close>

lemma run_reconnect_retries:
  assumes "\<not> connected self"
    and "\<forall>i<k. broker self !! i = Refused"
    and "broker self !! k = Accepted"
  shows "run_reconnect self =
    Some (Inr (),
          self\<lparr>broker := sdrop (Suc k) (broker self), connected := True,
               trace := trace self @ concat (replicate k [Reconnect, Sleep 1000]) @ [Reconnect]\<rparr>)"
  using assms
proof (induction k arbitrary: self)
  case 0
  then have a: "shd (broker self) = Accepted" by simp
  let ?s = "emit [Reconnect] (self\<lparr>broker := stl (broker self), connected := True\<rparr>)"
  have "run_reconnect self = run_reconnect ?s"
    using 0(1) a by (subst run_reconnect.simps) simp
  also have "\<dots> = Some (Inr (), ?s)"
    by (subst run_reconnect.simps) (simp add: emit_def)
  finally show ?case by (simp add: emit_def)
next
  case (Suc k)
  from Suc.prems(2) have r: "shd (broker self) = Refused" by (metis snth.simps(1) zero_less_Suc)
  let ?s = "emit [Reconnect, Sleep 1000] (self\<lparr>broker := stl (broker self)\<rparr>)"
  have nc: "\<not> connected ?s" using Suc.prems(1) by (simp add: emit_def)
  have ref: "\<forall>i<k. broker ?s !! i = Refused"
  proof (intro allI impI)
    fix i assume "i < k"
    then have "broker self !! Suc i = Refused" using Suc.prems(2) by auto
    then show "broker ?s !! i = Refused" by (simp add: emit_def)
  qed
  have acc: "broker ?s !! k = Accepted" using Suc.prems(3) by (simp add: emit_def)
  have "run_reconnect self = run_reconnect ?s"
    using Suc.prems(1) r by (subst run_reconnect.simps) simp
  also note Suc.IH [OF nc ref acc]
  finally show ?case by (simp add: emit_def)
qed

lemma run_reconnect_returns:
  assumes "run_reconnect self = Some r"
  shows "connected self \<or> (\<exists>k. broker self !! k \<noteq> Refused)"
proof (rule run_reconnect.raw_induct
    [where P = "\<lambda>self r. connected self \<or> (\<exists>k. broker self !! k \<noteq> Refused)", OF _ assms])
  fix f self r
  assume IH: "\<And>self r. f self = Some r \<Longrightarrow> connected self \<or> (\<exists>k. broker self !! k \<noteq> Refused)"
    and eq: "(if connected self then Some (Inr (), self)
         else case shd (broker self) of
              Accepted \<Rightarrow>
                f (emit [Reconnect] (self\<lparr>broker := stl (broker self), connected := True\<rparr>))
              | Refused \<Rightarrow> f (emit [Reconnect, Sleep 1000] (self\<lparr>broker := stl (broker self)\<rparr>))
              | ReconnectRaises e \<Rightarrow>
                  Some (Inl e, emit [Reconnect] (self\<lparr>broker := stl (broker self)\<rparr>))) = Some r"
  show "connected self \<or> (\<exists>k. broker self !! k \<noteq> Refused)"
  proof (cases "connected self \<or> shd (broker self) \<noteq> Refused")
    case True
    then show ?thesis by (metis snth.simps(1))
  next
    case False
    with eq have "f (emit [Reconnect, Sleep 1000] (self\<lparr>broker := stl (broker self)\<rparr>)) = Some r"
      by simp
    from IH [OF this] False obtain k where "stl (broker self) !! k \<noteq> Refused"
      by (auto simp: emit_def)
    then have "broker self !! Suc k \<noteq> Refused" by simp
    then show ?thesis by blast
  qed
qed

lemma check_printer_status_effect:
  "\<exists>cs d' evs. check_printer_status self =
     (Inr (), self\<lparr>current_status := cs, dev := d', trace := trace self @ evs\<rparr>)"
proof -
  obtain st d' evs where
    eq: "fetch_status self = (Inr st, self\<lparr>dev := d', trace := trace self @ evs\<rparr>)"
    using fetch_status_effect [of self] by blast
  show ?thesis
  proof (cases "st = current_status self")
    case True
    have "check_printer_status self =
      (Inr (), self\<lparr>current_status := current_status self, dev := d', trace := trace self @ evs\<rparr>)"
      by (simp add: check_printer_status_def eq True)
    then show ?thesis by blast
  next
    case False
    have "check_printer_status self =
      (Inr (), self\<lparr>current_status := st, dev := d',
         trace := trace self @ (evs @ [Publish (status_topic self) (StatusPayload st) True])\<rparr>)"
      by (simp add: check_printer_status_def eq False emit_def)
    then show ?thesis by blast
  qed
qed

lemma loop_rc: "loop L t s = (Inr c, s') \<Longrightarrow> c = rc (shd (inbox s))"
  by (auto simp: loop_def Let_def split: prod.splits sum.splits)

lemma poll_tail:
  assumes "(case loop L t s1 of
              (Inl e, s2) \<Rightarrow> (Inl e, s2)
            | (Inr c, s2) \<Rightarrow>
                (Inr dl, if c = MQTT_ERR_CONN_LOST then s2\<lparr>connected := False\<rparr> else s2)) =
           (Inr d', s')"
    and "rc (shd (inbox s1)) = MQTT_ERR_CONN_LOST"
  shows "\<not> connected s'"
  using assms by (auto split: prod.splits sum.splits dest: loop_rc)

lemma run_poll_lost:
  assumes "connected self" and "rc (shd (inbox self)) = MQTT_ERR_CONN_LOST"
    and "run_poll L d self = (Inr d', s')"
  shows "\<not> connected s'"
proof (cases "d \<le> shd (clock self)")
  case True
  let ?s0 = "self\<lparr>clock := stl (clock self)\<rparr>"
  obtain cs dv evs where
    c: "check_printer_status ?s0 =
       (Inr (), ?s0\<lparr>current_status := cs, dev := dv, trace := trace ?s0 @ evs\<rparr>)"
    using check_printer_status_effect [of ?s0] by blast
  let ?s1 = "?s0\<lparr>current_status := cs, dev := dv, trace := trace ?s0 @ evs\<rparr>"
  let ?dl = "shd (clock self) + status_check_interval self"
  have "run_poll L d self =
     (case loop L (max (?dl - shd (clock self)) 0) ?s1 of
        (Inl e, s2) \<Rightarrow> (Inl e, s2)
      | (Inr c, s2) \<Rightarrow>
          (Inr ?dl, if c = MQTT_ERR_CONN_LOST then s2\<lparr>connected := False\<rparr> else s2))"
    by (simp add: run_poll_def Let_def assms(1) True c)
  with assms(3) have
    "(case loop L (max (?dl - shd (clock self)) 0) ?s1 of
        (Inl e, s2) \<Rightarrow> (Inl e, s2)
      | (Inr c, s2) \<Rightarrow>
          (Inr ?dl, if c = MQTT_ERR_CONN_LOST then s2\<lparr>connected := False\<rparr> else s2)) =
     (Inr d', s')" by simp
  then show ?thesis by (rule poll_tail) (simp add: assms(2))
next
  case False
  let ?s0 = "self\<lparr>clock := stl (clock self)\<rparr>"
  have "run_poll L d self =
     (case loop L (max (d - shd (clock self)) 0) ?s0 of
        (Inl e, s2) \<Rightarrow> (Inl e, s2)
      | (Inr c, s2) \<Rightarrow>
          (Inr d, if c = MQTT_ERR_CONN_LOST then s2\<lparr>connected := False\<rparr> else s2))"
    by (simp add: run_poll_def Let_def assms(1) False)
  with assms(3) have
    "(case loop L (max (d - shd (clock self)) 0) ?s0 of
        (Inl e, s2) \<Rightarrow> (Inl e, s2)
      | (Inr c, s2) \<Rightarrow>
          (Inr d, if c = MQTT_ERR_CONN_LOST then s2\<lparr>connected := False\<rparr> else s2)) =
     (Inr d', s')" by simp
  then show ?thesis by (rule poll_tail) (simp add: assms(2))
qed

lemma run_reconnect_quiet:
  assumes "run_reconnect self = Some res"
  shows "\<exists>evs. trace (snd res) = trace self @ evs \<and> Watchdog \<notin> set evs"
proof (rule run_reconnect.raw_induct
    [where P = "\<lambda>self res. \<exists>evs. trace (snd res) = trace self @ evs \<and> Watchdog \<notin> set evs",
      OF _ assms])
  fix f self res
  assume IH: "\<And>self res. f self = Some res \<Longrightarrow>
      \<exists>evs. trace (snd res) = trace self @ evs \<and> Watchdog \<notin> set evs"
    and eq: "(if connected self then Some (Inr (), self)
         else case shd (broker self) of
              Accepted \<Rightarrow>
                f (emit [Reconnect] (self\<lparr>broker := stl (broker self), connected := True\<rparr>))
              | Refused \<Rightarrow> f (emit [Reconnect, Sleep 1000] (self\<lparr>broker := stl (broker self)\<rparr>))
              | ReconnectRaises e \<Rightarrow>
                  Some (Inl e, emit [Reconnect] (self\<lparr>broker := stl (broker self)\<rparr>))) = Some res"
  show "\<exists>evs. trace (snd res) = trace self @ evs \<and> Watchdog \<notin> set evs"
  proof (cases "connected self")
    case True
    with eq show ?thesis by auto
  next
    case nc: False
    show ?thesis
    proof (cases "shd (broker self)")
      case Accepted
      with eq nc have "f (emit [Reconnect] (self\<lparr>broker := stl (broker self), connected := True\<rparr>)) = Some res"
        by simp
      from IH [OF this] obtain evs where
        "trace (snd res) = trace self @ ([Reconnect] @ evs)" "Watchdog \<notin> set ([Reconnect] @ evs)"
        by (auto simp: emit_def)
      then show ?thesis by blast
    next
      case Refused
      with eq nc have "f (emit [Reconnect, Sleep 1000] (self\<lparr>broker := stl (broker self)\<rparr>)) = Some res"
        by simp
      from IH [OF this] obtain evs where
        "trace (snd res) = trace self @ ([Reconnect, Sleep 1000] @ evs)"
        "Watchdog \<notin> set ([Reconnect, Sleep 1000] @ evs)"
        by (auto simp: emit_def)
      then show ?thesis by blast
    next
      case (ReconnectRaises e)
      with eq nc show ?thesis by (auto simp: emit_def)
    qed
  qed
qed

lemma on_print_message_quiet:
  "\<exists>evs. trace (snd (on_print_message L p s)) = trace s @ evs \<and> Watchdog \<notin> set evs"
  by (auto simp: on_print_message_def send_print_status_def emit_def
      split: loads.splits sum.splits bool.splits)

lemma on_connect_quiet:
  "\<exists>evs. trace (snd (on_connect c s)) = trace s @ evs \<and> Watchdog \<notin> set evs"
  by (simp add: on_connect_def emit_def)

lemma deliver_quiet:
  "\<exists>evs. trace (snd (deliver L cbs s)) = trace s @ evs \<and> Watchdog \<notin> set evs"
proof (induction cbs arbitrary: s)
  case Nil
  show ?case by simp
next
  case (Cons cb cbs)
  define step where "step = (case cb of
              OnConnect c \<Rightarrow> on_connect c s
            | OnPrintMessage p \<Rightarrow> on_print_message L p s)"
  obtain e1 where e1: "trace (snd step) = trace s @ e1" "Watchdog \<notin> set e1"
    unfolding step_def
    using on_connect_quiet on_print_message_quiet by (cases cb) (simp_all, blast+)
  obtain r s1 where st: "step = (r, s1)" by (cases step)
  show ?case
  proof (cases r)
    case (Inl e)
    with st e1 show ?thesis by (auto simp: step_def [symmetric])
  next
    case (Inr u)
    obtain e2 where "trace (snd (deliver L cbs s1)) = trace s1 @ e2" "Watchdog \<notin> set e2"
      using Cons.IH [of s1] by blast
    with st e1 Inr have "trace (snd (deliver L (cb # cbs) s)) = trace s @ (e1 @ e2)"
      "Watchdog \<notin> set (e1 @ e2)"
      by (auto simp: step_def [symmetric])
    then show ?thesis by blast
  qed
qed

lemma loop_quiet:
  "\<exists>evs. trace (snd (loop L t s)) = trace s @ evs \<and> Watchdog \<notin> set evs"
proof -
  let ?s0 = "emit [MqttLoop t] (s\<lparr>inbox := stl (inbox s)\<rparr>)"
  obtain e where e: "trace (snd (deliver L (delivered (shd (inbox s))) ?s0)) = trace ?s0 @ e"
    "Watchdog \<notin> set e"
    using deliver_quiet by blast
  then have "trace (snd (loop L t s)) = trace s @ (MqttLoop t # e)" "Watchdog \<notin> set (MqttLoop t # e)"
    by (auto simp: loop_def Let_def emit_def split: prod.splits sum.splits)
  then show ?thesis by blast
qed

lemma check_printer_status_quiet:
  "\<exists>cs d' evs. check_printer_status self =
     (Inr (), self\<lparr>current_status := cs, dev := d', trace := trace self @ evs\<rparr>) \<and>
     Watchdog \<notin> set evs"
proof -
  obtain st d' evs where
    eq: "fetch_status self = (Inr st, self\<lparr>dev := d', trace := trace self @ evs\<rparr>)"
    and q: "Watchdog \<notin> set evs"
    using fetch_status_effect [of self] by blast
  show ?thesis
  proof (cases "st = current_status self")
    case True
    have "check_printer_status self =
      (Inr (), self\<lparr>current_status := current_status self, dev := d', trace := trace self @ evs\<rparr>)"
      by (simp add: check_printer_status_def eq True)
    with q show ?thesis by blast
  next
    case False
    have "check_printer_status self =
      (Inr (), self\<lparr>current_status := st, dev := d',
         trace := trace self @ (evs @ [Publish (status_topic self) (StatusPayload st) True])\<rparr>)"
      by (simp add: check_printer_status_def eq False emit_def)
    moreover have "Watchdog \<notin> set (evs @ [Publish (status_topic self) (StatusPayload st) True])"
      using q by simp
    ultimately show ?thesis by blast
  qed
qed

lemma poll_tail_trace:
  "trace (snd (case loop L t s1 of
                 (Inl e, s2) \<Rightarrow> (Inl e, s2)
               | (Inr c, s2) \<Rightarrow>
                   (Inr dl, if c = MQTT_ERR_CONN_LOST then s2\<lparr>connected := False\<rparr> else s2))) =
   trace (snd (loop L t s1))"
  by (auto split: prod.splits sum.splits)

lemma run_poll_quiet:
  "\<exists>evs. trace (snd (run_poll L d self)) = trace self @ evs \<and> Watchdog \<notin> set evs"
proof (cases "connected self")
  case False
  then show ?thesis by (simp add: run_poll_def)
next
  case True
  let ?s0 = "self\<lparr>clock := stl (clock self)\<rparr>"
  show ?thesis
  proof (cases "d \<le> shd (clock self)")
    case le: True
    obtain cs dv e1 where
      c: "check_printer_status ?s0 =
         (Inr (), ?s0\<lparr>current_status := cs, dev := dv, trace := trace ?s0 @ e1\<rparr>)"
      and q1: "Watchdog \<notin> set e1"
      using check_printer_status_quiet [of ?s0] by blast
    let ?s1 = "?s0\<lparr>current_status := cs, dev := dv, trace := trace ?s0 @ e1\<rparr>"
    let ?dl = "shd (clock self) + status_check_interval self"
    obtain e2 where
      l: "trace (snd (loop L (max (?dl - shd (clock self)) 0) ?s1)) = trace ?s1 @ e2"
      and q2: "Watchdog \<notin> set e2"
      using loop_quiet by blast
    have "run_poll L d self =
       (case loop L (max (?dl - shd (clock self)) 0) ?s1 of
          (Inl e, s2) \<Rightarrow> (Inl e, s2)
        | (Inr c, s2) \<Rightarrow>
            (Inr ?dl, if c = MQTT_ERR_CONN_LOST then s2\<lparr>connected := False\<rparr> else s2))"
      by (simp add: run_poll_def Let_def True le c)
    then have "trace (snd (run_poll L d self)) = trace self @ (e1 @ e2)"
      by (simp only: poll_tail_trace l) simp
    moreover have "Watchdog \<notin> set (e1 @ e2)" using q1 q2 by simp
    ultimately show ?thesis by blast
  next
    case gt: False
    obtain e2 where
      l: "trace (snd (loop L (max (d - shd (clock self)) 0) ?s0)) = trace ?s0 @ e2"
      and q2: "Watchdog \<notin> set e2"
      using loop_quiet by blast
    have "run_poll L d self =
       (case loop L (max (d - shd (clock self)) 0) ?s0 of
          (Inl e, s2) \<Rightarrow> (Inl e, s2)
        | (Inr c, s2) \<Rightarrow>
            (Inr d, if c = MQTT_ERR_CONN_LOST then s2\<lparr>connected := False\<rparr> else s2))"
      by (simp add: run_poll_def Let_def True gt)
    then have "trace (snd (run_poll L d self)) = trace self @ e2"
      by (simp only: poll_tail_trace l) simp
    with q2 show ?thesis by blast
  qed
qed

lemma run_body_watchdog:
  assumes "run_body L d self = Some (r, s')"
  shows "\<exists>evs. trace s' = trace self @ Watchdog # evs \<and> Watchdog \<notin> set evs"
proof -
  let ?s1 = "snd (run_print (emit [Watchdog] self))"
  obtain e1 where e1: "trace ?s1 = trace self @ Watchdog # e1" "Watchdog \<notin> set e1"
    using run_print_quiet [of "emit [Watchdog] self"] by (auto simp: emit_def)
  from assms obtain x s2 where rc: "run_reconnect ?s1 = Some (x, s2)"
    by (cases "run_reconnect ?s1") (auto simp: run_body_unfold)
  from run_reconnect_quiet [OF rc] obtain e2 where
    e2: "trace s2 = trace ?s1 @ e2" "Watchdog \<notin> set e2" by auto
  show ?thesis
  proof (cases x)
    case (Inl e)
    with assms rc have "s' = s2" by (simp add: run_body_unfold)
    with e1 e2 have "trace s' = trace self @ Watchdog # (e1 @ e2)" "Watchdog \<notin> set (e1 @ e2)"
      by simp_all
    then show ?thesis by blast
  next
    case (Inr u)
    with assms rc have s': "s' = snd (run_poll L d s2)" by (simp add: run_body_unfold)
    obtain e3 where "trace (snd (run_poll L d s2)) = trace s2 @ e3" "Watchdog \<notin> set e3"
      using run_poll_quiet by blast
    with s' e1 e2 have "trace s' = trace self @ Watchdog # (e1 @ e2 @ e3)"
      "Watchdog \<notin> set (e1 @ e2 @ e3)" by simp_all
    then show ?thesis by blast
  qed
qed

text \<open>
  Claim C3, as stated, fails in its last part. Take a connected printer whose event
  loop reports a lost connection and whose broker then refuses twice. The second
  iteration of \<open>run\<close> signals the watchdog once, at its start, and then makes its three
  reconnect attempts with nothing but the one-second sleep between them: no watchdog
  signal is emitted between successive attempts.
\<close>

theorem reconnect_watchdog_counterexample:
  "run_steps 2 deaf 0 lost_once =
     Some (Inr 5,
       (printer [])
         \<lparr>connected := True, current_status := status_not_connected,
          trace :=
            [Watchdog, Publish ''status'' (StatusPayload status_not_connected) True, MqttLoop 5,
             Watchdog, Reconnect, Sleep 1000, Reconnect, Sleep 1000, Reconnect, MqttLoop 5]\<rparr>) \<and>
   \<not> watchdog_between False
       [Watchdog, Publish ''status'' (StatusPayload status_not_connected) True, MqttLoop 5,
        Watchdog, Reconnect, Sleep 1000, Reconnect, Sleep 1000, Reconnect, MqttLoop 5]"
  by (simp add: numeral_2_eq_2 run_body_def lost_once_def deaf_def printer_def init_def
      device_def emit_def run_print_def run_reconnect.simps run_poll_def
      check_printer_status_def fs_defs loop_def
      status_not_connected_def status_offline_def status_message_def)

text \<open>
  Claim C3, amended. When the event loop reports that the connection is lost, the poll
  block leaves \<open>connected\<close> false. From a disconnected state the reconnect loop attempts
  to reconnect, sleeps one second after each refusal (the same second every time) and
  goes on for as many refusals as there are: after \<open>k\<close> refusals and one acceptance it
  ends with \<open>connected\<close> true, having done \<open>k\<close> times an attempt and a sleep and then the
  last attempt, and against a broker that always refuses it never ends. In every
  iteration of \<open>run\<close> that ends, whatever the queue holds, the watchdog signal is the
  first event and is emitted only once: before the reconnect attempts of the iteration
  and never between two of them.
\<close>

theorem reconnect_retries:
  "(\<forall>d d' s'. connected self \<and> rc (shd (inbox self)) = MQTT_ERR_CONN_LOST \<and>
       run_poll L d self = (Inr d', s') \<longrightarrow> \<not> connected s') \<and>
   (\<forall>k. \<not> connected self \<and> (\<forall>i<k. broker self !! i = Refused) \<and>
       broker self !! k = Accepted \<longrightarrow>
       run_reconnect self =
         Some (Inr (),
               self\<lparr>broker := sdrop (Suc k) (broker self), connected := True,
                    trace := trace self @
                      concat (replicate k [Reconnect, Sleep 1000]) @ [Reconnect]\<rparr>)) \<and>
   (\<not> connected self \<and> (\<forall>i. broker self !! i = Refused) \<longrightarrow> run_reconnect self = None) \<and>
   (\<forall>k d. print_queue self = [] \<and> \<not> connected self \<and>
       (\<forall>i<k. broker self !! i = Refused) \<and> broker self !! k = Accepted \<longrightarrow>
       run_body L d self =
         Some (run_poll L d
                 (self\<lparr>broker := sdrop (Suc k) (broker self), connected := True,
                       trace := trace self @
                         Watchdog # concat (replicate k [Reconnect, Sleep 1000]) @ [Reconnect]\<rparr>))) \<and>
   (\<forall>d r s'. run_body L d self = Some (r, s') \<longrightarrow>
       (\<exists>evs. trace s' = trace self @ Watchdog # evs \<and> Watchdog \<notin> set evs))"
proof (intro conjI allI impI)
  fix d d' s'
  assume "connected self \<and> rc (shd (inbox self)) = MQTT_ERR_CONN_LOST \<and>
       run_poll L d self = (Inr d', s')"
  then show "\<not> connected s'" using run_poll_lost by blast
next
  fix k
  assume "\<not> connected self \<and> (\<forall>i<k. broker self !! i = Refused) \<and> broker self !! k = Accepted"
  then show "run_reconnect self =
         Some (Inr (),
               self\<lparr>broker := sdrop (Suc k) (broker self), connected := True,
                    trace := trace self @
                      concat (replicate k [Reconnect, Sleep 1000]) @ [Reconnect]\<rparr>)"
    using run_reconnect_retries by blast
next
  assume a: "\<not> connected self \<and> (\<forall>i. broker self !! i = Refused)"
  show "run_reconnect self = None"
  proof (cases "run_reconnect self")
    case None
    then show ?thesis .
  next
    case (Some r)
    from run_reconnect_returns [OF this] a show ?thesis by blast
  qed
next
  fix k d
  assume "print_queue self = [] \<and> \<not> connected self \<and>
       (\<forall>i<k. broker self !! i = Refused) \<and> broker self !! k = Accepted"
  then have q: "print_queue self = []" and nc: "\<not> connected (emit [Watchdog] self)"
    and ref: "\<forall>i<k. broker (emit [Watchdog] self) !! i = Refused"
    and acc: "broker (emit [Watchdog] self) !! k = Accepted"
    by (simp_all add: emit_def)
  have p: "run_print (emit [Watchdog] self) = (Inr (), emit [Watchdog] self)"
    using q by (simp add: run_print_def emit_def)
  show "run_body L d self =
         Some (run_poll L d
                 (self\<lparr>broker := sdrop (Suc k) (broker self), connected := True,
                       trace := trace self @
                         Watchdog # concat (replicate k [Reconnect, Sleep 1000]) @ [Reconnect]\<rparr>))"
    by (simp add: run_body_def p run_reconnect_retries [OF nc ref acc]) (simp add: emit_def)
next
  fix d r s'
  assume "run_body L d self = Some (r, s')"
  then show "\<exists>evs. trace s' = trace self @ Watchdog # evs \<and> Watchdog \<notin> set evs"
    by (rule run_body_watchdog)
qed

theorem reconnect_retries_witness:
  "run_reconnect ((printer [])\<lparr>broker := Refused ## Refused ## sconst Accepted\<rparr>) =
     Some (Inr (),
           (printer [])\<lparr>connected := True,
              trace := [Reconnect, Sleep 1000, Reconnect, Sleep 1000, Reconnect]\<rparr>) \<and>
   run_reconnect ((printer [])\<lparr>broker := sconst Refused\<rparr>) = None \<and>
   (\<exists>evs.
      [Watchdog,
       Publish ''printed''
         (PrintedPayload \<lparr>jobid = ''7'', message = ''Printer not connected'',
            finished = True, success = False\<rparr>)
         False,
       Reconnect, Sleep 1000, Reconnect,
       Publish ''status'' (StatusPayload status_not_connected) True,
       MqttLoop 5] = Watchdog # evs \<and> Watchdog \<notin> set evs)"
proof -
  let ?w = "(printer [])\<lparr>broker := Refused ## Refused ## sconst Accepted\<rparr>"
  have h: "\<not> connected ?w \<and> (\<forall>i<2. broker ?w !! i = Refused) \<and> broker ?w !! 2 = Accepted"
    by (simp add: printer_def init_def numeral_2_eq_2 less_Suc_eq)
  have 1: "run_reconnect ?w =
     Some (Inr (),
           (printer [])\<lparr>connected := True,
              trace := [Reconnect, Sleep 1000, Reconnect, Sleep 1000, Reconnect]\<rparr>)"
    using reconnect_retries [of ?w, THEN conjunct2, THEN conjunct1, rule_format, OF h]
    by (simp add: printer_def init_def numeral_2_eq_2 numeral_3_eq_3)
  let ?v = "(printer [])\<lparr>broker := sconst Refused\<rparr>"
  have g: "\<not> connected ?v \<and> (\<forall>i. broker ?v !! i = Refused)"
    by (simp add: printer_def init_def)
  have 2: "run_reconnect ?v = None"
    using reconnect_retries [of ?v, THEN conjunct2, THEN conjunct2, THEN conjunct1, rule_format, OF g] .
  let ?u = "(printer [])\<lparr>print_queue := [(''7'', [])], broker := Refused ## sconst Accepted\<rparr>"
  let ?t = "[Watchdog,
       Publish ''printed''
         (PrintedPayload \<lparr>jobid = ''7'', message = ''Printer not connected'',
            finished = True, success = False\<rparr>)
         False,
       Reconnect, Sleep 1000, Reconnect,
       Publish ''status'' (StatusPayload status_not_connected) True,
       MqttLoop 5]"
  have r: "run_body deaf 0 ?u =
     Some (Inr 5, (printer [])\<lparr>connected := True, current_status := status_not_connected,
        trace := ?t\<rparr>)"
    by (simp add: run_body_def deaf_def printer_def init_def device_def emit_def run_print_def
      run_reconnect.simps run_poll_def check_printer_status_def fs_defs loop_def
      send_print_status_def status_not_connected_def status_offline_def status_message_def)
  have 3: "\<exists>evs. ?t = Watchdog # evs \<and> Watchdog \<notin> set evs"
    using reconnect_retries [of ?u deaf, THEN conjunct2, THEN conjunct2, THEN conjunct2,
        THEN conjunct2, rule_format, OF r]
    by (simp add: printer_def init_def)
  from 1 2 3 show ?thesis by blast
qed

end
